theory Spec2Isabelle
  imports Main "HOL-Library.Sublist"
begin

section \<open>Strings and the platform functions the script calls on them\<close>

text \<open>
  The script \<^verbatim>\<open>scripts/generate-all-screenshots.js\<close> runs on Node.js. A JavaScript
  string is a sequence of code units; it is modelled as a \<^typ>\<open>string\<close>, one
  \<^typ>\<open>char\<close> for each code unit, which covers the code units below 256 (ASCII and
  Latin-1). The functions of this section are not part of the repository: they model the
  methods of \<^verbatim>\<open>String.prototype\<close> and of Node's POSIX \<^verbatim>\<open>path\<close> module that the
  script calls, with the names they have there.
\<close>

text \<open>The character class \<^verbatim>\<open>[a-z0-9]\<close> of the first regular expression.\<close>

definition is_lower_alnum :: "char \<Rightarrow> bool" where
  "is_lower_alnum c =
     (let n = (of_char c :: nat) in (97 \<le> n \<and> n \<le> 122) \<or> (48 \<le> n \<and> n \<le> 57))"

text \<open>
  \<^verbatim>\<open>toLowerCase()\<close>: the upper-case letters below 256 are \<^verbatim>\<open>A-Z\<close> and
  \<^verbatim>\<open>U+00C0 .. U+00DE\<close> without the multiplication sign \<^verbatim>\<open>U+00D7\<close>; each has its
  lower-case form 32 code units above.
\<close>

definition toLowerCase_unit :: "char \<Rightarrow> char" where
  "toLowerCase_unit c =
     (let n = (of_char c :: nat)
      in if (65 \<le> n \<and> n \<le> 90) \<or> (192 \<le> n \<and> n \<le> 222 \<and> n \<noteq> 215)
         then char_of (n + 32) else c)"

definition toLowerCase :: "string \<Rightarrow> string" where
  "toLowerCase s = map toLowerCase_unit s"

text \<open>
  \<^verbatim>\<open>.replace(/[^a-z0-9]+/g, '-')\<close>: every maximal run of code units outside
  \<^verbatim>\<open>[a-z0-9]\<close> becomes one hyphen.
\<close>

function replace_non_alnum_runs :: "string \<Rightarrow> string" where
  "replace_non_alnum_runs [] = []"
| "replace_non_alnum_runs (c # cs) =
     (if is_lower_alnum c then c # replace_non_alnum_runs cs
      else CHR ''-'' # replace_non_alnum_runs (dropWhile (\<lambda>d. \<not> is_lower_alnum d) cs))"
  by pat_completeness auto
termination
  by (relation "measure length") (auto simp: less_Suc_eq_le length_dropWhile_le)

text \<open>
  \<^verbatim>\<open>.replace(/^-+|-+$/g, '')\<close>: the run of hyphens at the start of the string and
  the run of hyphens at its end are removed.
\<close>

definition trim_hyphens :: "string \<Rightarrow> string" where
  "trim_hyphens s =
     rev (dropWhile (\<lambda>c. c = CHR ''-'') (rev (dropWhile (\<lambda>c. c = CHR ''-'') s)))"

text \<open>\<^verbatim>\<open>.substring(a, b)\<close> on indices that are natural numbers.\<close>

definition substring :: "string \<Rightarrow> nat \<Rightarrow> nat \<Rightarrow> string" where
  "substring s a b = (let lo = min a b; hi = max a b in take (hi - lo) (drop lo s))"

text \<open>\<^verbatim>\<open>.slice(a, b)\<close>: a negative index counts from the end of the string.\<close>

definition slice :: "string \<Rightarrow> int \<Rightarrow> int \<Rightarrow> string" where
  "slice s a b =
     (let n = int (length s);
          from = (if a < 0 then max (n + a) 0 else min a n);
          to = (if b < 0 then max (n + b) 0 else min b n)
      in take (nat (to - from)) (drop (nat from) s))"

text \<open>\<^verbatim>\<open>s.includes(t)\<close>: \<open>t\<close> occurs in \<open>s\<close> as a contiguous substring.\<close>

fun str_includes :: "string \<Rightarrow> string \<Rightarrow> bool" where
  "str_includes [] t = (t = [])"
| "str_includes (c # cs) t = (prefix t (c # cs) \<or> str_includes cs t)"

text \<open>
  \<^verbatim>\<open>s.split(sep)\<close> for a separator of one code unit. The result is never empty:
  the empty string splits into one empty part.
\<close>

fun str_split :: "string \<Rightarrow> char \<Rightarrow> string list" where
  "str_split [] sep = [[]]"
| "str_split (c # cs) sep =
     (if c = sep then [] # str_split cs sep
      else (case str_split cs sep of
              [] \<Rightarrow> [[c]]
            | p # ps \<Rightarrow> (c # p) # ps))"

text \<open>\<^verbatim>\<open>path.sep\<close> of the POSIX \<^verbatim>\<open>path\<close> module.\<close>

definition path_sep :: char where
  "path_sep = CHR ''/''"

text \<open>
  \<^verbatim>\<open>path.basename(path, ext)\<close> as Node's \<^verbatim>\<open>lib/path.js\<close> computes it for POSIX
  paths: one backward scan over the path that skips the trailing slashes, stops at the
  slash before the last component, and matches the extension against the end of that
  component on the way. The record holds the local variables of the scan; \<open>-1\<close> stands
  for "not set", as in the original.
\<close>

record basename_vars =
  bn_start :: int
  bn_end :: int
  matchedSlash :: bool
  extIdx :: int
  firstNonSlashEnd :: int

text \<open>
  The loop \<^verbatim>\<open>for (let i = path.length - 1; i >= 0; --i)\<close> with an extension; the counter
  is \<open>i + 1\<close>, and the \<^verbatim>\<open>break\<close> returns the variables at once.
\<close>

fun basename_scan :: "string \<Rightarrow> string \<Rightarrow> nat \<Rightarrow> basename_vars \<Rightarrow> basename_vars" where
  "basename_scan path ext 0 v = v"
| "basename_scan path ext (Suc i) v =
     (if path ! i = CHR ''/'' then
        (if \<not> matchedSlash v then v\<lparr>bn_start := int i + 1\<rparr>
         else basename_scan path ext i v)
      else
        (let v1 = (if firstNonSlashEnd v = - 1
                   then v\<lparr>matchedSlash := False, firstNonSlashEnd := int i + 1\<rparr>
                   else v);
             v2 = (if 0 \<le> extIdx v1 then
                     (if path ! i = ext ! nat (extIdx v1) then
                        (if extIdx v1 - 1 = - 1
                         then v1\<lparr>extIdx := extIdx v1 - 1, bn_end := int i\<rparr>
                         else v1\<lparr>extIdx := extIdx v1 - 1\<rparr>)
                      else v1\<lparr>extIdx := - 1, bn_end := firstNonSlashEnd v1\<rparr>)
                   else v1)
         in basename_scan path ext i v2))"

text \<open>The same loop when no ext is to be removed.\<close>

fun basename_scan_plain :: "string \<Rightarrow> nat \<Rightarrow> basename_vars \<Rightarrow> basename_vars" where
  "basename_scan_plain path 0 v = v"
| "basename_scan_plain path (Suc i) v =
     (if path ! i = CHR ''/'' then
        (if \<not> matchedSlash v then v\<lparr>bn_start := int i + 1\<rparr>
         else basename_scan_plain path i v)
      else if bn_end v = - 1
        then basename_scan_plain path i (v\<lparr>matchedSlash := False, bn_end := int i + 1\<rparr>)
        else basename_scan_plain path i v)"

definition basename :: "string \<Rightarrow> string \<Rightarrow> string" where
  "basename path ext =
     (let v0 = \<lparr>bn_start = 0, bn_end = - 1, matchedSlash = True,
                extIdx = int (length ext) - 1, firstNonSlashEnd = - 1\<rparr>
      in if ext \<noteq> [] \<and> length ext \<le> length path then
           (if ext = path then []
            else
              (let v = basename_scan path ext (length path) v0;
                   end = (if bn_start v = bn_end v then firstNonSlashEnd v
                          else if bn_end v = - 1 then int (length path)
                          else bn_end v)
               in slice path (bn_start v) end))
         else
           (let v = basename_scan_plain path (length path) v0
            in if bn_end v = - 1 then [] else slice path (bn_start v) (bn_end v)))"

section \<open>The naming transform\<close>

text \<open>
  \<^verbatim>\<open>getScreenshotFilename(workflowPath)\<close>: the base name without \<^verbatim>\<open>.json\<close>, in
  lower case, runs outside \<^verbatim>\<open>[a-z0-9]\<close> replaced by a hyphen, hyphens trimmed at
  both ends, cut to 50 code units, and \<^verbatim>\<open>.png\<close> appended.
\<close>

definition getScreenshotFilename :: "string \<Rightarrow> string" where
  "getScreenshotFilename workflowPath =
     (let basename = basename workflowPath ''.json''
      in substring (trim_hyphens (replace_non_alnum_runs (toLowerCase basename))) 0 50
           @ ''.png'')"

text \<open>
  \<^verbatim>\<open>getCategory(workflowPath)\<close>: the loop
  \<^verbatim>\<open>for (let i = parts.length - 2; i >= 0; i--)\<close>, with the counter \<open>i + 1\<close>.
\<close>

fun getCategory_loop :: "string list \<Rightarrow> nat \<Rightarrow> string" where
  "getCategory_loop parts 0 = ''Other_Integrations_and_Use_Cases''"
| "getCategory_loop parts (Suc i) =
     (let dir = parts ! i
      in if str_includes dir ''_'' \<or> dir = ''devops'' then dir
         else getCategory_loop parts i)"

definition getCategory :: "string \<Rightarrow> string" where
  "getCategory workflowPath =
     (let parts = str_split workflowPath path_sep
      in getCategory_loop parts (length parts - 1))"

section \<open>JavaScript values\<close>

text \<open>
  The values the script handles besides strings: parsed JSON documents, response bodies and
  workflow identifiers. Numbers are the integers; an object is the list of its own
  properties in insertion order, each key once.
\<close>

datatype jsval =
    JUndefined
  | JNull
  | JBool bool
  | JNum int
  | JStr string
  | JArr "jsval list"
  | JObj "(string \<times> jsval) list"

text \<open>The truth value of a value in a condition (\<^verbatim>\<open>if (v)\<close>, \<^verbatim>\<open>!v\<close>, \<^verbatim>\<open>a || b\<close>).\<close>

fun truthy :: "jsval \<Rightarrow> bool" where
  "truthy JUndefined = False"
| "truthy JNull = False"
| "truthy (JBool b) = b"
| "truthy (JNum n) = (n \<noteq> 0)"
| "truthy (JStr s) = (s \<noteq> [])"
| "truthy (JArr xs) = True"
| "truthy (JObj kvs) = True"

text \<open>Decimal numerals, as a template literal prints a number.\<close>

definition digit_char :: "nat \<Rightarrow> char" where
  "digit_char d = char_of (48 + d)"

function string_of_nat :: "nat \<Rightarrow> string" where
  "string_of_nat n =
     (if n < 10 then [digit_char n] else string_of_nat (n div 10) @ [digit_char (n mod 10)])"
  by pat_completeness auto
termination
  by (relation "measure id") auto

definition string_of_int :: "int \<Rightarrow> string" where
  "string_of_int i = (if i < 0 then CHR ''-'' # string_of_nat (nat (- i)) else string_of_nat (nat i))"

fun join :: "string list \<Rightarrow> string \<Rightarrow> string" where
  "join [] sep = []"
| "join [x] sep = x"
| "join (x # y # ys) sep = x @ sep @ join (y # ys) sep"

text \<open>
  \<^verbatim>\<open>String(v)\<close>, which a template literal \<^verbatim>\<open>`${v}`\<close> applies: inside an array
  \<^verbatim>\<open>null\<close> and \<^verbatim>\<open>undefined\<close> print as the empty string.
\<close>

fun to_string :: "jsval \<Rightarrow> string" where
  "to_string JUndefined = ''undefined''"
| "to_string JNull = ''null''"
| "to_string (JBool b) = (if b then ''true'' else ''false'')"
| "to_string (JNum n) = string_of_int n"
| "to_string (JStr s) = s"
| "to_string (JArr xs) =
     join (map (\<lambda>x. if x = JUndefined \<or> x = JNull then [] else to_string x) xs) '',''"
| "to_string (JObj kvs) = ''[object Object]''"

text \<open>
  \<^verbatim>\<open>JSON.stringify\<close>: a string is quoted with the quote, the backslash and the control
  characters escaped.
\<close>

definition hex_digit :: "nat \<Rightarrow> char" where
  "hex_digit d = (if d < 10 then char_of (48 + d) else char_of (87 + d))"

definition json_escape :: "char \<Rightarrow> string" where
  "json_escape c =
     (let n = (of_char c :: nat)
      in if c = CHR 0x22 then [CHR 0x5C, CHR 0x22]
         else if c = CHR 0x5C then [CHR 0x5C, CHR 0x5C]
         else if n = 8 then [CHR 0x5C, CHR ''b'']
         else if n = 12 then [CHR 0x5C, CHR ''f'']
         else if n = 10 then [CHR 0x5C, CHR ''n'']
         else if n = 13 then [CHR 0x5C, CHR ''r'']
         else if n = 9 then [CHR 0x5C, CHR ''t'']
         else if n < 32 then [CHR 0x5C, CHR ''u'', CHR ''0'', CHR ''0'',
                              hex_digit (n div 16), hex_digit (n mod 16)]
         else [c])"

definition json_quote :: "string \<Rightarrow> string" where
  "json_quote s = [CHR 0x22] @ concat (map json_escape s) @ [CHR 0x22]"

text \<open>
  \<^verbatim>\<open>JSON.stringify(v)\<close>. A property whose value is \<^verbatim>\<open>undefined\<close> is left out of
  an object, and \<^verbatim>\<open>undefined\<close> inside an array prints as \<^verbatim>\<open>null\<close>. At the top,
  \<^verbatim>\<open>JSON.stringify(undefined)\<close> is \<^verbatim>\<open>undefined\<close>, which the template literals the
  script puts it in print as that word.
\<close>

fun JSON_stringify :: "jsval \<Rightarrow> string" where
  "JSON_stringify JUndefined = ''undefined''"
| "JSON_stringify JNull = ''null''"
| "JSON_stringify (JBool b) = (if b then ''true'' else ''false'')"
| "JSON_stringify (JNum n) = string_of_int n"
| "JSON_stringify (JStr s) = json_quote s"
| "JSON_stringify (JArr xs) =
     ''['' @ join (map (\<lambda>x. if x = JUndefined then ''null'' else JSON_stringify x) xs) '','' @ '']''"
| "JSON_stringify (JObj kvs) =
     ''{'' @ join (map (\<lambda>(k, v). json_quote k @ '':'' @ JSON_stringify v)
                    (filter (\<lambda>(k, v). v \<noteq> JUndefined) kvs)) '','' @ ''}''"

text \<open>
  \<^verbatim>\<open>JSON.stringify(v, null, 2)\<close>: the same with every element and property on a line
  of its own, indented by two spaces for each level; an empty array or object stays
  \<^verbatim>\<open>[]\<close> or \<^verbatim>\<open>{}\<close>.
\<close>

fun JSON_stringify_pretty :: "nat \<Rightarrow> jsval \<Rightarrow> string" where
  "JSON_stringify_pretty depth (JArr xs) =
     (if xs = [] then ''[]''
      else ''['' @ [CHR 0x0A] @ replicate (2 * Suc depth) CHR '' ''
           @ join (map (\<lambda>x. if x = JUndefined then ''null''
                             else JSON_stringify_pretty (Suc depth) x) xs)
                  ('','' @ [CHR 0x0A] @ replicate (2 * Suc depth) CHR '' '')
           @ [CHR 0x0A] @ replicate (2 * depth) CHR '' '' @ '']'')"
| "JSON_stringify_pretty depth (JObj kvs) =
     (let shown = filter (\<lambda>(k, v). v \<noteq> JUndefined) kvs
      in if shown = [] then ''{}''
         else ''{'' @ [CHR 0x0A] @ replicate (2 * Suc depth) CHR '' ''
              @ join (map (\<lambda>(k, v). json_quote k @ '': '' @ JSON_stringify_pretty (Suc depth) v)
                          shown)
                     ('','' @ [CHR 0x0A] @ replicate (2 * Suc depth) CHR '' '')
              @ [CHR 0x0A] @ replicate (2 * depth) CHR '' '' @ ''}'')"
| "JSON_stringify_pretty depth v = JSON_stringify v"

section \<open>Errors and the world outside the script\<close>

text \<open>
  A response of the HTTP client (axios): the status code and the parsed body, which the
  client calls \<^verbatim>\<open>data\<close>.
\<close>

record http_response =
  status :: nat
  body :: jsval

text \<open>
  Every value the script or its libraries throw is an \<^verbatim>\<open>Error\<close> with a message; the
  HTTP client attaches the response to the error it throws for a refused status.
\<close>

datatype error = Error (message: string) (response: "http_response option")

text \<open>
  Reading a property: \<^verbatim>\<open>v.key\<close> throws a \<^verbatim>\<open>TypeError\<close> on \<^verbatim>\<open>null\<close> and
  \<^verbatim>\<open>undefined\<close>, and is \<^verbatim>\<open>undefined\<close> where the property is absent. None of the
  keys the script reads is a built-in property of a string, a number or an array.
\<close>

definition type_error :: "string \<Rightarrow> string \<Rightarrow> error" where
  "type_error what key =
     Error (''Cannot read properties of '' @ what @ '' (reading '' @ [CHR 0x27] @ key
            @ [CHR 0x27] @ '')'') None"

fun get_prop :: "jsval \<Rightarrow> string \<Rightarrow> error + jsval" where
  "get_prop JUndefined key = Inl (type_error ''undefined'' key)"
| "get_prop JNull key = Inl (type_error ''null'' key)"
| "get_prop (JObj kvs) key = Inr (case map_of kvs key of Some v \<Rightarrow> v | None \<Rightarrow> JUndefined)"
| "get_prop v key = Inr JUndefined"

text \<open>The value of an expression that may throw, passed on to the next one.\<close>

definition and_then :: "error + 'a \<Rightarrow> ('a \<Rightarrow> error + 'b) \<Rightarrow> error + 'b" where
  "and_then r f = (case r of Inl e \<Rightarrow> Inl e | Inr x \<Rightarrow> f x)"

text \<open>
  What the script asks of the world is recorded as a trace of events. Besides the calls
  that leave the process (HTTP requests, the file system, the browser, the timer), the
  trace records the entry into each function of the script that the properties below
  speak about, and the normal return of \<^verbatim>\<open>importWorkflow\<close> with the identifier it
  returns. Console output is not modelled.
\<close>

type_synonym headers = "(string \<times> string option) list"

datatype http_request =
    HttpGet string headers
  | HttpPost string jsval headers
  | HttpPut string jsval headers
  | HttpDelete string headers

datatype page_call =
    SetViewport nat nat
  | Goto string nat
  | WaitForSelector string nat
  | TypeText string string
  | WaitForNavigation nat
  | Authenticate string string
  | Close

datatype event =
    Enter_processWorkflow string
  | Enter_screenshotExists string string
  | Enter_importWorkflow jsval
  | Return_importWorkflow jsval
  | Enter_deleteWorkflow jsval
  | Enter_takeScreenshot jsval
  | Enter_uploadToGitHub string string string
  | Http http_request
  | ReadFile string
  | WriteFile string string
  | ExistsSync string
  | MkdirSync string
  | Glob string "string list"
  | Launch
  | NewPage
  | Page page_call
  | PageContent
  | PageEvaluate string
  | PageScreenshot
  | BrowserClose
  | Sleep nat

text \<open>
  The network answers a request with a response or fails to answer (a transport
  failure, with the message of the error the client then throws).
\<close>

datatype net_result = Responded http_response | NetworkError string

text \<open>
  The world: how everything outside the script answers, given the events so far. It is
  a parameter of every function below, so that a property proved for all worlds holds
  whatever the network, the file system and the browser do. The last three fields are
  functions of the platform whose result no property below depends on:
  \<^verbatim>\<open>JSON.parse\<close>, \<^verbatim>\<open>Buffer.toString('base64')\<close> and \<^verbatim>\<open>path.join\<close>.
\<close>

record world =
  net :: "event list \<Rightarrow> http_request \<Rightarrow> net_result"
  readFileSync :: "event list \<Rightarrow> string \<Rightarrow> error + string"
  writeFileSync :: "event list \<Rightarrow> string \<Rightarrow> string \<Rightarrow> error option"
  existsSync :: "event list \<Rightarrow> string \<Rightarrow> bool"
  mkdirSync :: "event list \<Rightarrow> string \<Rightarrow> error option"
  glob :: "event list \<Rightarrow> string \<Rightarrow> string list \<Rightarrow> error + string list"
  launch :: "event list \<Rightarrow> error option"
  newPage :: "event list \<Rightarrow> error option"
  page :: "event list \<Rightarrow> page_call \<Rightarrow> error option"
  page_content :: "event list \<Rightarrow> error + string"
  page_evaluate :: "event list \<Rightarrow> string \<Rightarrow> error + jsval"
  page_screenshot :: "event list \<Rightarrow> error + string"
  browser_close :: "event list \<Rightarrow> error option"
  now :: "event list \<Rightarrow> string"
  JSON_parse :: "string \<Rightarrow> error + jsval"
  base64 :: "string \<Rightarrow> string"
  path_join :: "string list \<Rightarrow> string"

subsection \<open>Steps: results, exceptions and events\<close>

text \<open>
  A step of the script takes the events so far and gives its outcome, a value or the
  error it throws, with the events it adds. \<open>await m f\<close> is \<^verbatim>\<open>const x = await m; f(x)\<close>
  (also for a synchronous call): an error of \<open>m\<close> propagates. \<open>attempt m\<close> turns the
  outcome of \<open>m\<close> into a value, for the \<^verbatim>\<open>catch\<close> and \<^verbatim>\<open>finally\<close> blocks that look
  at it.
\<close>

type_synonym 'a step = "event list \<Rightarrow> (error + 'a) \<times> event list"

definition pure :: "'a \<Rightarrow> 'a step" where
  "pure x tr = (Inr x, [])"

definition throw :: "error \<Rightarrow> 'a step" where
  "throw e tr = (Inl e, [])"

definition emit :: "event \<Rightarrow> unit step" where
  "emit ev tr = (Inr (), [ev])"

definition await :: "'a step \<Rightarrow> ('a \<Rightarrow> 'b step) \<Rightarrow> 'b step" where
  "await m f tr =
     (case m tr of
        (Inl e, evs) \<Rightarrow> (Inl e, evs)
      | (Inr x, evs) \<Rightarrow> (case f x (tr @ evs) of (r, evs') \<Rightarrow> (r, evs @ evs')))"

definition attempt :: "'a step \<Rightarrow> (error + 'a) step" where
  "attempt m tr = (case m tr of (r, evs) \<Rightarrow> (Inr r, evs))"

text \<open>\<^verbatim>\<open>try { m } finally { c }\<close>: an error thrown by \<open>c\<close> replaces the outcome of \<open>m\<close>.\<close>

definition try_finally :: "'a step \<Rightarrow> unit step \<Rightarrow> 'a step" where
  "try_finally m c =
     await (attempt m) (\<lambda>r. await c (\<lambda>_. case r of Inl e \<Rightarrow> throw e | Inr x \<Rightarrow> pure x))"

text \<open>An expression that may throw, and the outcome of a call that returns nothing.\<close>

definition lift :: "error + 'a \<Rightarrow> 'a step" where
  "lift r tr = (r, [])"

definition outcome_of :: "error option \<Rightarrow> error + unit" where
  "outcome_of r = (case r of None \<Rightarrow> Inr () | Some e \<Rightarrow> Inl e)"

text \<open>\<^verbatim>\<open>await new Promise(resolve => setTimeout(resolve, ms))\<close>\<close>

definition sleep :: "nat \<Rightarrow> unit step" where
  "sleep ms = emit (Sleep ms)"

text \<open>
  A request through the HTTP client: the promise resolves with the response when
  \<^verbatim>\<open>validateStatus\<close> accepts its status, and rejects otherwise, with the response
  attached to the error; a transport failure rejects with no response attached.
\<close>

definition axios :: "world \<Rightarrow> http_request \<Rightarrow> (nat \<Rightarrow> bool) \<Rightarrow> http_response step" where
  "axios w req validateStatus tr =
     (case net w tr req of
        NetworkError msg \<Rightarrow> (Inl (Error msg None), [Http req])
      | Responded r \<Rightarrow>
          if validateStatus (status r) then (Inr r, [Http req])
          else (Inl (Error (''Request failed with status code '' @ string_of_nat (status r))
                           (Some r)), [Http req]))"

text \<open>The default \<^verbatim>\<open>validateStatus\<close> of the client.\<close>

definition default_validateStatus :: "nat \<Rightarrow> bool" where
  "default_validateStatus s = (200 \<le> s \<and> s < 300)"

section \<open>Configuration and run state\<close>

text \<open>
  \<^verbatim>\<open>CONFIG\<close>. A field read from the environment without a default is \<^verbatim>\<open>undefined\<close>
  when the variable is not set.
\<close>

record config =
  n8nUrl :: string
  n8nApiKey :: "string option"
  githubToken :: "string option"
  githubRepo :: string
  screenshotsDir :: string
  workflowsDir :: string
  n8nBasicAuthUser :: "string option"
  n8nBasicAuthPassword :: "string option"
  n8nEmail :: "string option"
  n8nPassword :: "string option"
  viewport_width :: nat
  viewport_height :: nat
  screenshotQuality :: nat
  delayAfterImport :: nat
  delayAfterPageLoad :: nat
  delayBetweenWorkflows :: nat
  batchSize :: nat
  skipExisting :: bool
  debug :: bool

text \<open>An environment value in a condition, in \<^verbatim>\<open>a || b\<close> and in a template literal.\<close>

definition is_set :: "string option \<Rightarrow> bool" where
  "is_set v = (case v of None \<Rightarrow> False | Some s \<Rightarrow> s \<noteq> [])"

definition or_default :: "string option \<Rightarrow> string \<Rightarrow> string" where
  "or_default v d = (case v of None \<Rightarrow> d | Some s \<Rightarrow> if s = [] then d else s)"

definition env_string :: "string option \<Rightarrow> string" where
  "env_string v = (case v of None \<Rightarrow> ''undefined'' | Some s \<Rightarrow> s)"

definition CONFIG :: "(string \<Rightarrow> string option) \<Rightarrow> config" where
  "CONFIG env =
     \<lparr>n8nUrl = or_default (env ''N8N_URL'') ''http://localhost:5678'',
      n8nApiKey = env ''N8N_API_KEY'',
      githubToken = env ''GITHUB_TOKEN'',
      githubRepo = or_default (env ''GITHUB_SCREENSHOTS_REPO'') ''your-org/your-screenshots-repo'',
      screenshotsDir = ''./screenshots'',
      workflowsDir = or_default (env ''WORKFLOWS_DIR'') ''.'',
      n8nBasicAuthUser = env ''N8N_BASIC_AUTH_USER'',
      n8nBasicAuthPassword = env ''N8N_BASIC_AUTH_PASSWORD'',
      n8nEmail = env ''N8N_EMAIL'',
      n8nPassword = env ''N8N_PASSWORD'',
      viewport_width = 1920,
      viewport_height = 1080,
      screenshotQuality = 90,
      delayAfterImport = 2000,
      delayAfterPageLoad = 5000,
      delayBetweenWorkflows = 1000,
      batchSize = 10,
      skipExisting = True,
      debug = (env ''DEBUG'' = Some ''true'')\<rparr>"

text \<open>\<^verbatim>\<open>state\<close>: the counters of the run and the list of (workflow, error message) pairs.\<close>

record state =
  total :: nat
  processed :: nat
  succeeded :: nat
  failed :: nat
  skipped :: nat
  errors :: "(string \<times> string) list"

definition initial_state :: state where
  "initial_state = \<lparr>total = 0, processed = 0, succeeded = 0, failed = 0, skipped = 0, errors = []\<rparr>"

subsection \<open>The calls into the file system and the browser\<close>

definition fs_readFileSync :: "world \<Rightarrow> string \<Rightarrow> string step" where
  "fs_readFileSync w file tr = (readFileSync w tr file, [ReadFile file])"

definition fs_writeFileSync :: "world \<Rightarrow> string \<Rightarrow> string \<Rightarrow> unit step" where
  "fs_writeFileSync w file content tr =
     (outcome_of (writeFileSync w tr file content), [WriteFile file content])"

definition fs_existsSync :: "world \<Rightarrow> string \<Rightarrow> bool step" where
  "fs_existsSync w file tr = (Inr (existsSync w tr file), [ExistsSync file])"

definition fs_mkdirSync :: "world \<Rightarrow> string \<Rightarrow> unit step" where
  "fs_mkdirSync w dir tr = (outcome_of (mkdirSync w tr dir), [MkdirSync dir])"

definition glob_files :: "world \<Rightarrow> string \<Rightarrow> string list \<Rightarrow> string list step" where
  "glob_files w pattern ignore tr = (glob w tr pattern ignore, [Glob pattern ignore])"

definition puppeteer_launch :: "world \<Rightarrow> unit step" where
  "puppeteer_launch w tr = (outcome_of (launch w tr), [Launch])"

definition browser_newPage :: "world \<Rightarrow> unit step" where
  "browser_newPage w tr = (outcome_of (newPage w tr), [NewPage])"

definition browser_do_close :: "world \<Rightarrow> unit step" where
  "browser_do_close w tr = (outcome_of (browser_close w tr), [BrowserClose])"

definition page_do :: "world \<Rightarrow> page_call \<Rightarrow> unit step" where
  "page_do w c tr = (outcome_of (page w tr c), [Page c])"

definition page_get_content :: "world \<Rightarrow> string step" where
  "page_get_content w tr = (page_content w tr, [PageContent])"

definition page_eval :: "world \<Rightarrow> string \<Rightarrow> jsval step" where
  "page_eval w script tr = (page_evaluate w tr script, [PageEvaluate script])"

definition page_take_screenshot :: "world \<Rightarrow> string step" where
  "page_take_screenshot w tr = (page_screenshot w tr, [PageScreenshot])"

definition current_time :: "world \<Rightarrow> string step" where
  "current_time w tr = (Inr (now w tr), [])"

section \<open>The operations of the script\<close>

definition github_headers :: "config \<Rightarrow> headers" where
  "github_headers cfg =
     [(''Authorization'', Some (''token '' @ env_string (githubToken cfg))),
      (''Accept'', Some ''application/vnd.github.v3+json'')]"

text \<open>\<^verbatim>\<open>screenshotExists(category, filename)\<close>\<close>

definition screenshotExists :: "config \<Rightarrow> world \<Rightarrow> string \<Rightarrow> string \<Rightarrow> bool step" where
  "screenshotExists cfg w category filename =
     await (emit (Enter_screenshotExists category filename)) (\<lambda>_.
     if \<not> skipExisting cfg then pure False
     else
       (let url = ''https://api.github.com/repos/'' @ githubRepo cfg
                  @ ''/contents/screenshots/'' @ category @ ''/'' @ filename
        in await (attempt (axios w (HttpGet url (github_headers cfg))
                                   (\<lambda>s. s = 200 \<or> s = 404))) (\<lambda>r.
           case r of
             Inr resp \<Rightarrow> pure (status resp = 200)
           | Inl error \<Rightarrow> pure False)))"

text \<open>
  \<^verbatim>\<open>importWorkflow(workflowJson)\<close>: the object literal \<^verbatim>\<open>cleanWorkflow\<close> with the
  optional \<^verbatim>\<open>staticData\<close>, the expression that reads the identifier from the
  response, the body of the \<^verbatim>\<open>try\<close> block, and the function with its \<^verbatim>\<open>catch\<close>
  block, which wraps every error. With \<^verbatim>\<open>CONFIG.debug\<close> the script logs
  \<^verbatim>\<open>JSON.stringify(response.data).substring(0, 200)\<close>, which throws when the body is
  \<^verbatim>\<open>undefined\<close>.
\<close>

definition cleanWorkflow :: "jsval \<Rightarrow> error + jsval" where
  "cleanWorkflow workflowJson =
     and_then (get_prop workflowJson ''name'') (\<lambda>name.
     and_then (get_prop workflowJson ''nodes'') (\<lambda>nodes.
     and_then (get_prop workflowJson ''connections'') (\<lambda>connections.
     and_then (get_prop workflowJson ''settings'') (\<lambda>settings.
     and_then (get_prop workflowJson ''staticData'') (\<lambda>staticData.
     Inr (JObj ([(''name'', name), (''nodes'', nodes), (''connections'', connections),
                 (''settings'', if truthy settings then settings else JObj [])]
                @ (if truthy staticData then [(''staticData'', staticData)] else []))))))))"

text \<open>\<^verbatim>\<open>response.data.id || response.data.data?.id\<close>\<close>

definition response_workflowId :: "jsval \<Rightarrow> error + jsval" where
  "response_workflowId data =
     and_then (get_prop data ''id'') (\<lambda>ident.
     if truthy ident then Inr ident
     else and_then (get_prop data ''data'') (\<lambda>inner.
          if inner = JUndefined \<or> inner = JNull then Inr JUndefined
          else get_prop inner ''id''))"

definition n8n_headers :: "config \<Rightarrow> headers" where
  "n8n_headers cfg =
     [(''X-N8N-API-KEY'', n8nApiKey cfg), (''Content-Type'', Some ''application/json'')]"

definition importWorkflow_try :: "config \<Rightarrow> world \<Rightarrow> jsval \<Rightarrow> jsval step" where
  "importWorkflow_try cfg w workflowJson =
     await (lift (cleanWorkflow workflowJson)) (\<lambda>payload.
     await (axios w (HttpPost (n8nUrl cfg @ ''/api/v1/workflows'') payload (n8n_headers cfg))
                    (\<lambda>s. s < 500)) (\<lambda>resp.
     await (if debug cfg \<and> body resp = JUndefined
            then throw (type_error ''undefined'' ''substring'') else pure ()) (\<lambda>_.
     if 400 \<le> status resp then
       throw (Error (''API returned '' @ string_of_nat (status resp) @ '': ''
                     @ JSON_stringify (body resp)) None)
     else
       await (lift (response_workflowId (body resp))) (\<lambda>workflowId.
       if \<not> truthy workflowId then
         throw (Error (''No workflow ID in response: '' @ JSON_stringify (body resp)) None)
       else
         await (emit (Return_importWorkflow workflowId)) (\<lambda>_. pure workflowId)))))"

definition importWorkflow :: "config \<Rightarrow> world \<Rightarrow> jsval \<Rightarrow> jsval step" where
  "importWorkflow cfg w workflowJson =
     await (emit (Enter_importWorkflow workflowJson)) (\<lambda>_.
     await (attempt (importWorkflow_try cfg w workflowJson)) (\<lambda>r.
     case r of
       Inr workflowId \<Rightarrow> pure workflowId
     | Inl error \<Rightarrow>
         (case response error of
            Some resp \<Rightarrow>
              throw (Error (''Failed to import workflow: '' @ string_of_nat (status resp)
                            @ '' - '' @ JSON_stringify (body resp)) None)
          | None \<Rightarrow> throw (Error (''Failed to import workflow: '' @ message error) None))))"

text \<open>\<^verbatim>\<open>deleteWorkflow(workflowId)\<close>: a failure of the request is logged, not thrown.\<close>

definition deleteWorkflow :: "config \<Rightarrow> world \<Rightarrow> jsval \<Rightarrow> unit step" where
  "deleteWorkflow cfg w workflowId =
     await (emit (Enter_deleteWorkflow workflowId)) (\<lambda>_.
     await (attempt (axios w (HttpDelete (n8nUrl cfg @ ''/api/v1/workflows/''
                                           @ to_string workflowId)
                                          [(''X-N8N-API-KEY'', n8nApiKey cfg)])
                             default_validateStatus)) (\<lambda>r. pure ()))"

text \<open>
  \<^verbatim>\<open>loginToN8n(page)\<close>. Its \<^verbatim>\<open>catch\<close> block logs the error and throws it again.
\<close>

definition loginToN8n :: "config \<Rightarrow> world \<Rightarrow> unit step" where
  "loginToN8n cfg w =
     (if is_set (n8nEmail cfg) \<and> is_set (n8nPassword cfg) then
        await (page_do w (Goto (n8nUrl cfg @ ''/signin'') 15000)) (\<lambda>_.
        await (page_do w (WaitForSelector (''input[type='' @ [CHR 0x22] @ ''email''
                                            @ [CHR 0x22] @ '']'') 5000)) (\<lambda>_.
        await (if debug cfg
               then await (page_get_content w) (\<lambda>html.
                    fs_writeFileSync w ''debug-login-page.html'' html)
               else pure ()) (\<lambda>_.
        await (page_do w (TypeText (''input[type='' @ [CHR 0x22] @ ''email'' @ [CHR 0x22] @ '']'')
                                   (env_string (n8nEmail cfg)))) (\<lambda>_.
        await (page_do w (TypeText (''input[type='' @ [CHR 0x22] @ ''password''
                                     @ [CHR 0x22] @ '']'')
                                   (env_string (n8nPassword cfg)))) (\<lambda>_.
        await (sleep 500) (\<lambda>_.
        await (page_eval w ''click Sign in'') (\<lambda>clicked.
        if \<not> truthy clicked then
          await (page_eval w ''list buttons'') (\<lambda>buttons.
          throw (Error (''Could not find '' @ [CHR 0x22] @ ''Sign in'' @ [CHR 0x22]
                        @ '' submit button'') None))
        else page_do w (WaitForNavigation 10000))))))))
      else if is_set (n8nBasicAuthUser cfg) \<and> is_set (n8nBasicAuthPassword cfg) then
        page_do w (Authenticate (env_string (n8nBasicAuthUser cfg))
                                (env_string (n8nBasicAuthPassword cfg)))
      else pure ())"

text \<open>
  \<^verbatim>\<open>takeScreenshot(workflowId, browser)\<close>: the loop over the selectors, the body of the
  \<^verbatim>\<open>try\<close> block, and the function, which closes the page in its \<^verbatim>\<open>finally\<close> block.
\<close>

definition selectors :: "string list" where
  "selectors =
     [''.node-view'',
      ''[data-test-id='' @ [CHR 0x22] @ ''canvas'' @ [CHR 0x22] @ '']'',
      ''.canvas-container'',
      ''#canvas'',
      ''canvas'']"

fun wait_for_selectors :: "world \<Rightarrow> string list \<Rightarrow> string option step" where
  "wait_for_selectors w [] = pure None"
| "wait_for_selectors w (selector # rest) =
     await (attempt (page_do w (WaitForSelector selector 5000))) (\<lambda>r.
     case r of
       Inr _ \<Rightarrow> pure (Some selector)
     | Inl e \<Rightarrow> wait_for_selectors w rest)"

definition takeScreenshot_try :: "config \<Rightarrow> world \<Rightarrow> jsval \<Rightarrow> string step" where
  "takeScreenshot_try cfg w workflowId =
     await (page_do w (SetViewport (viewport_width cfg) (viewport_height cfg))) (\<lambda>_.
     await (page_do w (Goto (n8nUrl cfg @ ''/workflow/'' @ to_string workflowId) 30000)) (\<lambda>_.
     await (if debug cfg
            then await (page_get_content w) (\<lambda>html.
                 fs_writeFileSync w (''debug-page-'' @ to_string workflowId @ ''.html'') html)
            else pure ()) (\<lambda>_.
     await (wait_for_selectors w selectors) (\<lambda>selectorFound.
     if selectorFound = None \<or> selectorFound = Some [] then
       await (if debug cfg
              then await (page_take_screenshot w) (\<lambda>debugScreenshot.
                   fs_writeFileSync w (''debug-screenshot-'' @ to_string workflowId @ ''.png'')
                                    debugScreenshot)
              else pure ()) (\<lambda>_.
       throw (Error ''Could not find workflow canvas element'' None))
     else
       await (sleep (delayAfterPageLoad cfg)) (\<lambda>_.
       await (attempt (await (page_eval w ''click zoom-to-fit'') (\<lambda>_. sleep 500))) (\<lambda>_.
       page_take_screenshot w))))))"

definition takeScreenshot :: "config \<Rightarrow> world \<Rightarrow> jsval \<Rightarrow> string step" where
  "takeScreenshot cfg w workflowId =
     await (emit (Enter_takeScreenshot workflowId)) (\<lambda>_.
     await (browser_newPage w) (\<lambda>_.
     try_finally (takeScreenshot_try cfg w workflowId) (page_do w Close)))"

text \<open>\<^verbatim>\<open>uploadToGitHub(category, filename, imageBuffer)\<close>\<close>

definition uploadToGitHub :: "config \<Rightarrow> world \<Rightarrow> string \<Rightarrow> string \<Rightarrow> string \<Rightarrow> string step" where
  "uploadToGitHub cfg w category filename imageBuffer =
     await (emit (Enter_uploadToGitHub category filename imageBuffer)) (\<lambda>_.
     let base64Content = base64 w imageBuffer;
         filePath = ''screenshots/'' @ category @ ''/'' @ filename;
         api = ''https://api.github.com/repos/'' @ githubRepo cfg @ ''/contents/'' @ filePath
     in
     await (attempt
       (await (attempt
          (await (axios w (HttpGet api (github_headers cfg)) default_validateStatus)
             (\<lambda>existingFile. lift (get_prop (body existingFile) ''sha'')))) (\<lambda>found.
        let sha = (case found of Inl e \<Rightarrow> JNull | Inr v \<Rightarrow> v);
            payload =
              (if truthy sha then
                 JObj [(''message'', JStr (''Update screenshot: '' @ filename)),
                       (''content'', JStr base64Content),
                       (''branch'', JStr ''main''),
                       (''sha'', sha)]
               else
                 JObj [(''message'', JStr (''Add screenshot: '' @ filename)),
                       (''content'', JStr base64Content),
                       (''branch'', JStr ''main'')])
        in
        await (axios w (HttpPut api payload (github_headers cfg)) default_validateStatus) (\<lambda>_.
        pure (''https://raw.githubusercontent.com/'' @ githubRepo cfg @ ''/main/''
              @ filePath))))) (\<lambda>r.
     case r of
       Inr publicUrl \<Rightarrow> pure publicUrl
     | Inl error \<Rightarrow> throw (Error (''GitHub upload failed: '' @ message error) None)))"

section \<open>The orchestrator\<close>

text \<open>The object \<^verbatim>\<open>processWorkflow\<close> returns for a published screenshot.\<close>

record screenshot_result =
  r_workflow :: string
  r_category :: string
  r_filename :: string
  r_url :: string

text \<open>
  \<^verbatim>\<open>processWorkflow(workflowPath, browser)\<close>. The \<^verbatim>\<open>try\<close> block assigns the local
  variable \<^verbatim>\<open>workflowId\<close> once, from \<^verbatim>\<open>importWorkflow\<close>. It is given here in two
  parts, up to that assignment and after it; \<open>processWorkflow_try\<close> runs both and
  gives the value of \<^verbatim>\<open>workflowId\<close> at the end of the block with the outcome of the
  block, for the \<^verbatim>\<open>catch\<close> and \<^verbatim>\<open>finally\<close> blocks that follow in
  \<open>processWorkflow\<close>.
\<close>

definition processWorkflow_import :: "config \<Rightarrow> world \<Rightarrow> string \<Rightarrow> jsval step" where
  "processWorkflow_import cfg w workflowPath =
     await (fs_readFileSync w workflowPath) (\<lambda>text.
     await (lift (JSON_parse w text)) (\<lambda>workflowJson.
     importWorkflow cfg w workflowJson))"

definition processWorkflow_capture ::
  "config \<Rightarrow> world \<Rightarrow> string \<Rightarrow> string \<Rightarrow> string \<Rightarrow> jsval \<Rightarrow> screenshot_result step" where
  "processWorkflow_capture cfg w workflowName category filename workflowId =
     await (sleep (delayAfterImport cfg)) (\<lambda>_.
     await (takeScreenshot cfg w workflowId) (\<lambda>screenshot.
     let localDir = path_join w [screenshotsDir cfg, category] in
     await (fs_existsSync w localDir) (\<lambda>present.
     await (if \<not> present then fs_mkdirSync w localDir else pure ()) (\<lambda>_.
     let localPath = path_join w [localDir, filename] in
     await (fs_writeFileSync w localPath screenshot) (\<lambda>_.
     await (uploadToGitHub cfg w category filename screenshot) (\<lambda>url.
     pure \<lparr>r_workflow = workflowName, r_category = category, r_filename = filename,
           r_url = url\<rparr>))))))"

definition processWorkflow_try ::
  "config \<Rightarrow> world \<Rightarrow> string \<Rightarrow> string \<Rightarrow> string \<Rightarrow> string
     \<Rightarrow> (jsval \<times> (error + screenshot_result)) step" where
  "processWorkflow_try cfg w workflowPath workflowName category filename =
     await (attempt (processWorkflow_import cfg w workflowPath)) (\<lambda>imported.
     case imported of
       Inl error \<Rightarrow> pure (JNull, Inl error)
     | Inr workflowId \<Rightarrow>
         await (attempt (processWorkflow_capture cfg w workflowName category filename
                           workflowId)) (\<lambda>captured.
         pure (workflowId, captured)))"

definition processWorkflow ::
  "config \<Rightarrow> world \<Rightarrow> state \<Rightarrow> string \<Rightarrow> (screenshot_result option \<times> state) step" where
  "processWorkflow cfg w st workflowPath =
     (let workflowName = basename workflowPath [];
          category = getCategory workflowPath;
          filename = getScreenshotFilename workflowPath
      in
      await (emit (Enter_processWorkflow workflowPath)) (\<lambda>_.
      await (screenshotExists cfg w category filename) (\<lambda>present.
      if present then pure (None, st\<lparr>skipped := skipped st + 1\<rparr>)
      else
        await (processWorkflow_try cfg w workflowPath workflowName category filename)
          (\<lambda>(workflowId, tried).
        let (result, st1) =
              (case tried of
                 Inr r \<Rightarrow> (Some r, st\<lparr>succeeded := succeeded st + 1\<rparr>)
               | Inl error \<Rightarrow>
                   (None, st\<lparr>failed := failed st + 1,
                              errors := errors st @ [(workflowName, message error)]\<rparr>))
        in
        await (if truthy workflowId then deleteWorkflow cfg w workflowId else pure ()) (\<lambda>_.
        pure (result, st1\<lparr>processed := processed st1 + 1\<rparr>))))))"

text \<open>
  \<^verbatim>\<open>getWorkflowFiles()\<close>: the files the pattern finds, filtered by a callback that
  returns \<^verbatim>\<open>content.nodes && content.name\<close>, and \<^verbatim>\<open>false\<close> when the file cannot
  be read or parsed.
\<close>

fun filter_workflows :: "world \<Rightarrow> string list \<Rightarrow> string list step" where
  "filter_workflows w [] = pure []"
| "filter_workflows w (file # files) =
     await (attempt
       (await (fs_readFileSync w file) (\<lambda>text.
        await (lift (JSON_parse w text)) (\<lambda>content.
        await (lift (get_prop content ''nodes'')) (\<lambda>nodes.
        if truthy nodes then lift (get_prop content ''name'') else pure nodes))))) (\<lambda>r.
     let keep = (case r of Inl e \<Rightarrow> False | Inr v \<Rightarrow> truthy v) in
     await (filter_workflows w files) (\<lambda>kept.
     pure (if keep then file # kept else kept)))"

definition getWorkflowFiles :: "config \<Rightarrow> world \<Rightarrow> string list step" where
  "getWorkflowFiles cfg w =
     (let pattern = path_join w [workflowsDir cfg, ''**/*.json'']
      in await (glob_files w pattern [''**/node_modules/**'', ''**/.git/**'', ''**/package*.json''])
           (\<lambda>files. filter_workflows w files))"

text \<open>
  The loop of \<^verbatim>\<open>main\<close> over \<^verbatim>\<open>workflowFiles\<close>, with the list \<^verbatim>\<open>results\<close> it
  fills; the delay is left out after the last file.
\<close>

fun main_loop ::
  "config \<Rightarrow> world \<Rightarrow> state \<Rightarrow> screenshot_result list \<Rightarrow> string list
     \<Rightarrow> (state \<times> screenshot_result list) step" where
  "main_loop cfg w st results [] = pure (st, results)"
| "main_loop cfg w st results (workflowPath # rest) =
     await (processWorkflow cfg w st workflowPath) (\<lambda>(result, st').
     let results' = (case result of Some r \<Rightarrow> results @ [r] | None \<Rightarrow> results) in
     await (if rest \<noteq> [] then sleep (delayBetweenWorkflows cfg) else pure ()) (\<lambda>_.
     main_loop cfg w st' results' rest))"

text \<open>The document written to \<^verbatim>\<open>screenshot-results.json\<close>.\<close>

definition report :: "string \<Rightarrow> state \<Rightarrow> screenshot_result list \<Rightarrow> jsval" where
  "report timestamp st results =
     JObj [(''timestamp'', JStr timestamp),
           (''stats'', JObj [(''total'', JNum (int (total st))),
                             (''succeeded'', JNum (int (succeeded st))),
                             (''failed'', JNum (int (failed st))),
                             (''skipped'', JNum (int (skipped st)))]),
           (''screenshots'',
              JArr (map (\<lambda>r. JObj [(''workflow'', JStr (r_workflow r)),
                                    (''category'', JStr (r_category r)),
                                    (''filename'', JStr (r_filename r)),
                                    (''url'', JStr (r_url r))]) results)),
           (''errors'',
              JArr (map (\<lambda>(workflow, error). JObj [(''workflow'', JStr workflow),
                                                   (''error'', JStr error)]) (errors st)))]"

text \<open>
  \<^verbatim>\<open>main()\<close>: it ends by \<^verbatim>\<open>process.exit(1)\<close>, by returning, or by throwing, which
  the caller \<^verbatim>\<open>main().catch(...)\<close> turns into \<^verbatim>\<open>process.exit(1)\<close> as well.
  \<open>main_login\<close> is the block that logs in once before the loop.
\<close>

datatype outcome = ProcessExit nat | Returned

definition main_login :: "config \<Rightarrow> world \<Rightarrow> unit step" where
  "main_login cfg w =
     (if is_set (n8nEmail cfg) \<and> is_set (n8nPassword cfg)
      then await (browser_newPage w) (\<lambda>_.
           await (loginToN8n cfg w) (\<lambda>_.
           page_do w Close))
      else pure ())"

definition main :: "config \<Rightarrow> world \<Rightarrow> (outcome \<times> state) step" where
  "main cfg w =
     (if \<not> is_set (n8nApiKey cfg) then pure (ProcessExit 1, initial_state)
      else if \<not> is_set (githubToken cfg) then pure (ProcessExit 1, initial_state)
      else if githubRepo cfg = [] \<or> githubRepo cfg = ''your-org/your-screenshots-repo''
        then pure (ProcessExit 1, initial_state)
      else
        await (getWorkflowFiles cfg w) (\<lambda>workflowFiles.
        let st = initial_state\<lparr>total := length workflowFiles\<rparr> in
        if total st = 0 then pure (Returned, st)
        else
          await (puppeteer_launch w) (\<lambda>_.
          try_finally
            (await (main_login cfg w) (\<lambda>_.
             await (main_loop cfg w st [] workflowFiles) (\<lambda>(st', results).
             await (current_time w) (\<lambda>timestamp.
             await (fs_writeFileSync w ''screenshot-results.json''
                      (JSON_stringify_pretty 0 (report timestamp st' results))) (\<lambda>_.
             pure (Returned, st'))))))
            (browser_do_close w))))"

section \<open>Properties of traces\<close>

text \<open>
  Every remote handle is released within its iteration: scanning a trace with the
  identifier that is currently held, \<^verbatim>\<open>importWorkflow\<close> may return an identifier only
  while none is held, \<^verbatim>\<open>deleteWorkflow\<close> is entered only with the identifier that is
  held, and releases it, and no identifier is held when \<^verbatim>\<open>processWorkflow\<close> is
  entered for the next item or when the trace ends.
\<close>

fun handles_released :: "jsval option \<Rightarrow> event list \<Rightarrow> bool" where
  "handles_released held [] = (held = None)"
| "handles_released held (Return_importWorkflow i # evs) =
     (held = None \<and> handles_released (Some i) evs)"
| "handles_released held (Enter_deleteWorkflow i # evs) =
     (held = Some i \<and> handles_released None evs)"
| "handles_released held (Enter_processWorkflow p # evs) =
     (held = None \<and> handles_released None evs)"
| "handles_released held (ev # evs) = handles_released held evs"

text \<open>The events the scan passes over.\<close>

fun neutral :: "event \<Rightarrow> bool" where
  "neutral (Return_importWorkflow i) = False"
| "neutral (Enter_deleteWorkflow i) = False"
| "neutral (Enter_processWorkflow p) = False"
| "neutral ev = True"

text \<open>A step all of whose events, whatever the history, satisfy a predicate.\<close>

definition emits_only :: "(event \<Rightarrow> bool) \<Rightarrow> 'a step \<Rightarrow> bool" where
  "emits_only P m = (\<forall>tr. \<forall>ev\<in>set (snd (m tr)). P ev)"

text \<open>
  A step that, started while no handle is held, ends with no handle held, whatever
  follows it.
\<close>

definition balanced :: "'a step \<Rightarrow> bool" where
  "balanced m =
     (\<forall>tr rest. handles_released None (snd (m tr) @ rest) = handles_released None rest)"

text \<open>The paths for which \<^verbatim>\<open>processWorkflow\<close> is entered, in the order of the trace.\<close>

fun processed_paths :: "event list \<Rightarrow> string list" where
  "processed_paths [] = []"
| "processed_paths (Enter_processWorkflow p # evs) = p # processed_paths evs"
| "processed_paths (ev # evs) = processed_paths evs"

text \<open>The entries into the importer, the capture service and the publisher.\<close>

fun is_pipeline_call :: "event \<Rightarrow> bool" where
  "is_pipeline_call (Enter_importWorkflow j) = True"
| "is_pipeline_call (Enter_takeScreenshot i) = True"
| "is_pipeline_call (Enter_uploadToGitHub c f b) = True"
| "is_pipeline_call ev = False"

text \<open>
  The entries into one stage of the pipeline, given by the name of its function, and a
  step that enters a stage at most a given number of times, whatever the history.
\<close>

fun is_entry_of :: "string \<Rightarrow> event \<Rightarrow> bool" where
  "is_entry_of stage (Enter_importWorkflow j) = (stage = ''importWorkflow'')"
| "is_entry_of stage (Enter_takeScreenshot i) = (stage = ''takeScreenshot'')"
| "is_entry_of stage (Enter_uploadToGitHub c f b) = (stage = ''uploadToGitHub'')"
| "is_entry_of stage ev = False"

definition emits_at_most :: "(event \<Rightarrow> bool) \<Rightarrow> nat \<Rightarrow> 'a step \<Rightarrow> bool" where
  "emits_at_most P n m = (\<forall>tr. length (filter P (snd (m tr))) \<le> n)"

text \<open>The writes of the report file in a trace.\<close>

fun report_writes :: "event list \<Rightarrow> string list" where
  "report_writes [] = []"
| "report_writes (WriteFile file content # evs) =
     (if file = ''screenshot-results.json'' then content # report_writes evs
      else report_writes evs)"
| "report_writes (ev # evs) = report_writes evs"

section \<open>Example worlds\<close>

text \<open>
  Concrete worlds on which the functions are evaluated. In all of them the platform
  functions are: \<^verbatim>\<open>path.join\<close> of the POSIX \<^verbatim>\<open>path\<close> module (the non-empty
  arguments joined by a slash and normalised), a \<^verbatim>\<open>JSON.parse\<close> that knows the text
  of the one example workflow, and a \<^verbatim>\<open>base64\<close> that knows the one example image.
\<close>

fun normalize_segments :: "bool \<Rightarrow> string list \<Rightarrow> string list \<Rightarrow> string list" where
  "normalize_segments absolute acc [] = rev acc"
| "normalize_segments absolute acc (seg # segs) =
     (if seg = [] \<or> seg = ''.'' then normalize_segments absolute acc segs
      else if seg = ''..'' then
        (case acc of
           [] \<Rightarrow> normalize_segments absolute (if absolute then [] else [''..'']) segs
         | a # acc' \<Rightarrow>
             if a = ''..'' then normalize_segments absolute (''..'' # acc) segs
             else normalize_segments absolute acc' segs)
      else normalize_segments absolute (seg # acc) segs)"

definition posix_normalize :: "string \<Rightarrow> string" where
  "posix_normalize p =
     (if p = [] then ''.''
      else
        (let absolute = (hd p = CHR ''/'');
             trailing = (last p = CHR ''/'');
             inner = join (normalize_segments absolute [] (str_split p CHR ''/'')) ''/''
         in if inner = [] then (if absolute then ''/'' else if trailing then ''./'' else ''.'')
            else (if absolute then ''/'' else []) @ inner @ (if trailing then ''/'' else [])))"

definition posix_join :: "string list \<Rightarrow> string" where
  "posix_join parts =
     (let given = filter (\<lambda>p. p \<noteq> []) parts
      in if given = [] then ''.'' else posix_normalize (join given ''/''))"

definition example_workflow :: jsval where
  "example_workflow =
     JObj [(''name'', JStr ''My Flow''), (''nodes'', JArr [JObj [(''type'', JStr ''start'')]]),
           (''connections'', JObj [])]"

definition example_env :: "string \<Rightarrow> string option" where
  "example_env =
     map_of [(''N8N_API_KEY'', ''n8n-key''), (''GITHUB_TOKEN'', ''gh-token''),
             (''GITHUB_SCREENSHOTS_REPO'', ''acme/shots'')]"

definition example_config :: config where
  "example_config = CONFIG example_env"

text \<open>
  One workflow file is found; the store has no screenshot for it (404); the engine
  accepts the import and answers with the identifier \<^verbatim>\<open>wf1\<close>; the browser and the
  file system never fail; the store accepts the upload.
\<close>

definition world_ok :: world where
  "world_ok =
     \<lparr>net = (\<lambda>tr req. case req of
               HttpGet url h \<Rightarrow> Responded \<lparr>status = 404, body = JObj [(''message'', JStr ''Not Found'')]\<rparr>
             | HttpPost url payload h \<Rightarrow> Responded \<lparr>status = 200, body = JObj [(''id'', JStr ''wf1'')]\<rparr>
             | HttpPut url payload h \<Rightarrow> Responded \<lparr>status = 201, body = JObj []\<rparr>
             | HttpDelete url h \<Rightarrow> Responded \<lparr>status = 200, body = JObj []\<rparr>),
      readFileSync = (\<lambda>tr file. Inr (JSON_stringify example_workflow)),
      writeFileSync = (\<lambda>tr file content. None),
      existsSync = (\<lambda>tr file. True),
      mkdirSync = (\<lambda>tr dir. None),
      glob = (\<lambda>tr pattern ignore. Inr [''templates/devops/My Flow.json'']),
      launch = (\<lambda>tr. None),
      newPage = (\<lambda>tr. None),
      page = (\<lambda>tr c. None),
      page_content = (\<lambda>tr. Inr ''<html></html>''),
      page_evaluate = (\<lambda>tr script. Inr JUndefined),
      page_screenshot = (\<lambda>tr. Inr ''PNG''),
      browser_close = (\<lambda>tr. None),
      now = (\<lambda>tr. ''2025-01-01T00:00:00.000Z''),
      JSON_parse = (\<lambda>text. if text = JSON_stringify example_workflow then Inr example_workflow
                           else Inl (Error ''Unexpected end of JSON input'' None)),
      base64 = (\<lambda>buffer. if buffer = ''PNG'' then ''UE5H'' else []),
      path_join = posix_join\<rparr>"

text \<open>The store already has the screenshot: it answers 200 with a version token.\<close>

definition world_existing :: world where
  "world_existing =
     world_ok\<lparr>net := (\<lambda>tr req. case req of
                         HttpGet url h \<Rightarrow> Responded \<lparr>status = 200, body = JObj [(''sha'', JStr ''abc123'')]\<rparr>
                       | _ \<Rightarrow> net world_ok tr req)\<rparr>"


text \<open>The engine rejects the import with status 400.\<close>

definition world_rejecting :: world where
  "world_rejecting =
     world_ok\<lparr>net := (\<lambda>tr req. case req of
                         HttpPost url payload h \<Rightarrow>
                           Responded \<lparr>status = 400, body = JObj [(''message'', JStr ''Bad request'')]\<rparr>
                       | _ \<Rightarrow> net world_ok tr req)\<rparr>"



text \<open>The browser cannot open a page.\<close>

definition world_no_page :: world where
  "world_no_page = world_ok\<lparr>newPage := (\<lambda>tr. Some (Error ''Target closed'' None))\<rparr>"

text \<open>No workflow file is found.\<close>

definition world_no_files :: world where
  "world_no_files = world_ok\<lparr>glob := (\<lambda>tr pattern ignore. Inr [])\<rparr>"

text \<open>The computation rules of steps, collected for the proofs below.\<close>

named_theorems step_simps

section \<open>The naming transform and the category: proofs\<close>

lemma basename_scan_idle:
  "extIdx v < 0 \<Longrightarrow> firstNonSlashEnd v \<noteq> - 1 \<Longrightarrow> k \<le> length name \<Longrightarrow>
   CHR ''/'' \<notin> set name \<Longrightarrow> basename_scan (name @ e) ext k v = v"
proof (induction k)
  case 0
  then show ?case by simp
next
  case (Suc k)
  then have "(name @ e) ! k \<noteq> CHR ''/''"
    by (metis Suc_le_lessD nth_append nth_mem)
  with Suc show ?case by simp
qed

lemma basename_scan_match:
  assumes "CHR ''/'' \<notin> set ext"
  shows "1 \<le> j \<Longrightarrow> j \<le> length ext \<Longrightarrow>
    basename_scan (name @ ext) ext (length name + j)
      \<lparr>bn_start = s, bn_end = e, matchedSlash = m, extIdx = int j - 1, firstNonSlashEnd = f\<rparr> =
    basename_scan (name @ ext) ext (length name)
      \<lparr>bn_start = s, bn_end = int (length name), matchedSlash = (if f = - 1 then False else m),
       extIdx = - 1, firstNonSlashEnd = (if f = - 1 then int (length name + j) else f)\<rparr>"
proof (induction j arbitrary: e m f)
  case 0
  then show ?case by simp
next
  case (Suc j)
  have here: "(name @ ext) ! (length name + j) = ext ! j"
    by (simp add: nth_append)
  have noslash: "ext ! j \<noteq> CHR ''/''"
    using assms Suc.prems by (metis Suc_le_lessD nth_mem)
  show ?case
  proof (cases "j = 0")
    case True
    then show ?thesis using here noslash by (simp add: ac_simps)
  next
    case False
    then have j: "1 \<le> j" "j \<le> length ext" using Suc.prems by simp_all
    have idx: "int (Suc j) - 1 - 1 = int j - 1" "int (Suc j) - 1 = int j" by simp_all
    have nz: "int j \<noteq> 0" "int j - 1 \<noteq> - 1" "0 \<le> int j" using False by simp_all
    show ?thesis
    proof (cases "f = - 1")
      case True
      then show ?thesis
        using here noslash nz Suc.IH [OF j, of e False "int (length name + j) + 1"]
        by (simp add: idx Let_def ac_simps)
    next
      case f: False
      then show ?thesis
        using here noslash nz Suc.IH [OF j, of e m f]
        by (simp add: idx Let_def ac_simps)
    qed
  qed
qed

lemma basename_strip_ext:
  assumes "CHR ''/'' \<notin> set name" and "CHR ''/'' \<notin> set ext" and "ext \<noteq> []"
  shows "basename (name @ ext) ext = name"
proof (cases "name = []")
  case True
  then show ?thesis using assms(3) by (simp add: basename_def Let_def)
next
  case False
  let ?k = "length name"
  let ?p = "name @ ext"
  let ?v0 = "\<lparr>bn_start = 0, bn_end = - 1, matchedSlash = True,
                extIdx = int (length ext) - 1, firstNonSlashEnd = - 1\<rparr>"
  let ?v1 = "\<lparr>bn_start = 0, bn_end = int ?k, matchedSlash = False,
                extIdx = - 1, firstNonSlashEnd = int (?k + length ext)\<rparr>"
  have "basename_scan ?p ext (length ?p) ?v0 = basename_scan ?p ext ?k ?v1"
    using basename_scan_match [OF assms(2), of "length ext" name 0 "- 1" True "- 1"] assms(3)
    by (simp add: Suc_le_eq)
  also have "\<dots> = ?v1"
    using assms by (intro basename_scan_idle) auto
  finally have scan: "basename_scan ?p ext (length ?p) ?v0 = ?v1" .
  have ne: "ext \<noteq> ?p" using False by simp
  show ?thesis
    unfolding basename_def Let_def scan using False ne assms(3)
    by (simp add: slice_def)
qed

lemma hyphen_not_alnum: "\<not> is_lower_alnum CHR ''-''"
  by (simp add: is_lower_alnum_def)

lemma slash_not_alnum: "\<not> is_lower_alnum CHR ''/''"
  by (simp add: is_lower_alnum_def)

lemma toLowerCase_unit_fixed:
  "is_lower_alnum c \<or> c = CHR ''-'' \<Longrightarrow> toLowerCase_unit c = c"
  by (auto simp: is_lower_alnum_def toLowerCase_unit_def Let_def)

lemma toLowerCase_fixed:
  "\<forall>c\<in>set s. is_lower_alnum c \<or> c = CHR ''-'' \<Longrightarrow> toLowerCase s = s"
  unfolding toLowerCase_def by (induction s) (simp_all add: toLowerCase_unit_fixed)

lemma str_includes_sublist: "str_includes s t \<longleftrightarrow> sublist t s"
  by (induction s) (simp_all add: sublist_Cons_right)

lemma replace_chars:
  "c \<in> set (replace_non_alnum_runs s) \<Longrightarrow> is_lower_alnum c \<or> c = CHR ''-''"
  by (induction s rule: replace_non_alnum_runs.induct) (auto split: if_splits)

lemma replace_head:
  "s = [] \<or> is_lower_alnum (hd s) \<Longrightarrow> \<not> prefix ''-'' (replace_non_alnum_runs s)"
  by (cases s) (auto simp: hyphen_not_alnum)

lemma dropWhile_head: "dropWhile P xs = [] \<or> \<not> P (hd (dropWhile P xs))"
  using hd_dropWhile by blast

lemma replace_no_double: "\<not> sublist ''--'' (replace_non_alnum_runs s)"
proof (induction s rule: replace_non_alnum_runs.induct)
  case 1
  then show ?case by simp
next
  case (2 c cs)
  show ?case
  proof (cases "is_lower_alnum c")
    case True
    with 2 show ?thesis
      by (auto simp: sublist_Cons_right hyphen_not_alnum)
  next
    case False
    let ?r = "dropWhile (\<lambda>d. \<not> is_lower_alnum d) cs"
    have "?r = [] \<or> is_lower_alnum (hd ?r)"
      using dropWhile_head [of "\<lambda>d. \<not> is_lower_alnum d" cs] by simp
    then have "\<not> prefix ''-'' (replace_non_alnum_runs ?r)"
      by (rule replace_head)
    with 2 False show ?thesis
      by (simp add: sublist_Cons_right)
  qed
qed

lemma replace_fixed:
  "\<forall>c\<in>set s. is_lower_alnum c \<or> c = CHR ''-'' \<Longrightarrow> \<not> sublist ''--'' s \<Longrightarrow>
   replace_non_alnum_runs s = s"
proof (induction s rule: replace_non_alnum_runs.induct)
  case 1
  then show ?case by simp
next
  case (2 c cs)
  have rest: "\<not> sublist ''--'' cs"
    using "2.prems"(2) by (simp add: sublist_Cons_right)
  show ?case
  proof (cases "is_lower_alnum c")
    case True
    with 2 rest show ?thesis by simp
  next
    case False
    then have c: "c = CHR ''-''" using "2.prems"(1) by simp
    have "cs = [] \<or> hd cs \<noteq> CHR ''-''"
      using "2.prems"(2) c by (cases cs) (auto simp: sublist_Cons_right)
    then have "cs = [] \<or> is_lower_alnum (hd cs)"
      using "2.prems"(1) by (cases cs) auto
    then have dw: "dropWhile (\<lambda>d. \<not> is_lower_alnum d) cs = cs"
      by (cases cs) auto
    show ?thesis
      using False "2.IH"(2) [OF False] "2.prems"(1) rest c by (simp add: dw)
  qed
qed

lemma trim_prefix:
  "prefix (trim_hyphens s) (dropWhile (\<lambda>c. c = CHR ''-'') s)"
  unfolding trim_hyphens_def
  by (metis prefix_def rev_append rev_rev_ident takeWhile_dropWhile_id)

lemma trim_sublist: "sublist (trim_hyphens s) s"
proof -
  have "sublist (trim_hyphens s) (dropWhile (\<lambda>c. c = CHR ''-'') s)"
    using trim_prefix by (rule prefix_imp_sublist)
  moreover have "sublist (dropWhile (\<lambda>c. c = CHR ''-'') s) s"
    by (intro suffix_imp_sublist suffix_dropWhile)
  ultimately show ?thesis by (rule sublist_order.order.trans)
qed

lemma trim_head: "trim_hyphens s \<noteq> [] \<Longrightarrow> hd (trim_hyphens s) \<noteq> CHR ''-''"
proof -
  assume ne: "trim_hyphens s \<noteq> []"
  let ?y = "dropWhile (\<lambda>c. c = CHR ''-'') s"
  obtain zs where y: "?y = trim_hyphens s @ zs"
    using trim_prefix [of s] by (auto simp: prefix_def)
  with ne have "?y \<noteq> []" and "hd ?y = hd (trim_hyphens s)" by auto
  then show ?thesis
    using hd_dropWhile [of "\<lambda>c. c = CHR ''-''" s] by auto
qed

lemma trim_last: "trim_hyphens s \<noteq> [] \<Longrightarrow> last (trim_hyphens s) \<noteq> CHR ''-''"
proof -
  assume ne: "trim_hyphens s \<noteq> []"
  let ?z = "dropWhile (\<lambda>c. c = CHR ''-'') (rev (dropWhile (\<lambda>c. c = CHR ''-'') s))"
  have z: "trim_hyphens s = rev ?z" by (simp add: trim_hyphens_def)
  with ne have "?z \<noteq> []" by simp
  then have "hd ?z \<noteq> CHR ''-''"
    using hd_dropWhile [of "\<lambda>c. c = CHR ''-''"] by blast
  then show ?thesis
    using \<open>?z \<noteq> []\<close> by (simp add: z last_rev)
qed

lemma trim_fixed:
  "s = [] \<or> (hd s \<noteq> CHR ''-'' \<and> last s \<noteq> CHR ''-'') \<Longrightarrow> trim_hyphens s = s"
proof (cases s)
  case Nil
  then show ?thesis by (simp add: trim_hyphens_def)
next
  case (Cons a as)
  assume "s = [] \<or> (hd s \<noteq> CHR ''-'' \<and> last s \<noteq> CHR ''-'')"
  with Cons have h: "a \<noteq> CHR ''-''" and l: "last s \<noteq> CHR ''-''" by auto
  have "rev s \<noteq> []" using Cons by simp
  moreover have "hd (rev s) \<noteq> CHR ''-''"
    using l by (simp add: hd_rev)
  ultimately have "dropWhile (\<lambda>c. c = CHR ''-'') (rev s) = rev s"
    by (cases "rev s") auto
  moreover have "dropWhile (\<lambda>c. c = CHR ''-'') s = s"
    using Cons h by simp
  ultimately show ?thesis by (simp add: trim_hyphens_def)
qed

text \<open>
  Claim C3, as the code has it. \<^verbatim>\<open>getScreenshotFilename\<close> is a function, so it is
  deterministic. For every path its output is a canonical name followed by
  \<^verbatim>\<open>.png\<close>, where the name has at most 50 code units, consists of lower-case
  letters, digits and hyphens only, has no two hyphens in a row and no hyphen at its
  start; a name shorter than 50 code units has no hyphen at its end either. Whenever the
  name does not end in a hyphen, the transform maps the name with the extension
  \<^verbatim>\<open>.json\<close> to the same output again.
\<close>

theorem getScreenshotFilename_canonical_name:
  "\<exists>name. getScreenshotFilename p = name @ ''.png''
     \<and> length name \<le> 50
     \<and> (\<forall>c\<in>set name. is_lower_alnum c \<or> c = CHR ''-'')
     \<and> \<not> str_includes name ''--''
     \<and> (name \<noteq> [] \<longrightarrow> hd name \<noteq> CHR ''-'')
     \<and> (name \<noteq> [] \<and> length name < 50 \<longrightarrow> last name \<noteq> CHR ''-'')
     \<and> ((name \<noteq> [] \<longrightarrow> last name \<noteq> CHR ''-'') \<longrightarrow>
            getScreenshotFilename (name @ ''.json'') = getScreenshotFilename p)"
proof -
  define r where "r = replace_non_alnum_runs (toLowerCase (basename p ''.json''))"
  define t where "t = trim_hyphens r"
  define name where "name = take 50 t"
  have out: "getScreenshotFilename p = name @ ''.png''"
    by (simp add: getScreenshotFilename_def substring_def name_def t_def r_def)
  have len: "length name \<le> 50"
    by (simp add: name_def)
  have sub: "sublist name r"
  proof -
    have "sublist name t"
      unfolding name_def by (intro prefix_imp_sublist take_is_prefix)
    moreover have "sublist t r"
      unfolding t_def by (rule trim_sublist)
    ultimately show ?thesis by (rule sublist_order.order.trans)
  qed
  have chars: "\<forall>c\<in>set name. is_lower_alnum c \<or> c = CHR ''-''"
    using set_mono_sublist [OF sub] replace_chars unfolding r_def by blast
  have nodbl: "\<not> sublist ''--'' name"
    using sub replace_no_double [of "toLowerCase (basename p ''.json'')"]
    unfolding r_def by (meson sublist_order.order.trans)
  have hd: "hd name \<noteq> CHR ''-''" if "name \<noteq> []"
  proof -
    from that have "t \<noteq> []" by (auto simp: name_def)
    then have "hd t \<noteq> CHR ''-''" unfolding t_def by (rule trim_head)
    then show ?thesis by (simp add: name_def)
  qed
  have lst: "last name \<noteq> CHR ''-''" if "name \<noteq> []" and "length name < 50"
  proof -
    from that(2) have "name = t" by (auto simp: name_def)
    with that(1) show ?thesis unfolding t_def using trim_last by metis
  qed
  have again: "getScreenshotFilename (name @ ''.json'') = getScreenshotFilename p"
    if "name \<noteq> [] \<longrightarrow> last name \<noteq> CHR ''-''"
  proof -
    have "CHR ''/'' \<notin> set name"
      using chars slash_not_alnum by auto
    then have "basename (name @ ''.json'') ''.json'' = name"
      by (intro basename_strip_ext) auto
    moreover have "toLowerCase name = name"
      using chars by (rule toLowerCase_fixed)
    moreover have "replace_non_alnum_runs name = name"
      using chars nodbl by (rule replace_fixed)
    moreover have "trim_hyphens name = name"
      using hd that by (intro trim_fixed) blast
    ultimately have "getScreenshotFilename (name @ ''.json'') = name @ ''.png''"
      using len by (simp add: getScreenshotFilename_def substring_def)
    with out show ?thesis by simp
  qed
  show ?thesis
    using out len chars nodbl hd lst again
    by (intro exI [of _ name]) (simp add: str_includes_sublist)
qed

text \<open>
  Witness for C3: the path \<^verbatim>\<open>templates/devops/My  Flow (v2)!.json\<close> has the
  canonical name \<^verbatim>\<open>my-flow-v2\<close>, which does not end in a hyphen, and
  \<^verbatim>\<open>my-flow-v2.json\<close> is mapped to the same output.
\<close>

theorem getScreenshotFilename_canonical_name_witness:
  "getScreenshotFilename ''templates/devops/My  Flow (v2)!.json'' = ''my-flow-v2'' @ ''.png''
   \<and> ''my-flow-v2'' \<noteq> [] \<and> length ''my-flow-v2'' < 50
   \<and> hd ''my-flow-v2'' \<noteq> CHR ''-''
   \<and> last ''my-flow-v2'' \<noteq> CHR ''-''
   \<and> getScreenshotFilename (''my-flow-v2'' @ ''.json'') =
       getScreenshotFilename ''templates/devops/My  Flow (v2)!.json''"
proof -
  let ?p = "''templates/devops/My  Flow (v2)!.json''"
  obtain name where n: "getScreenshotFilename ?p = name @ ''.png''"
    "name \<noteq> [] \<longrightarrow> hd name \<noteq> CHR ''-''"
    "(name \<noteq> [] \<longrightarrow> last name \<noteq> CHR ''-'') \<longrightarrow>
       getScreenshotFilename (name @ ''.json'') = getScreenshotFilename ?p"
    using getScreenshotFilename_canonical_name [of ?p] by blast
  have val: "getScreenshotFilename ?p = ''my-flow-v2'' @ ''.png''"
    by code_simp
  with n(1) have name: "name = ''my-flow-v2''" by simp
  have "last ''my-flow-v2'' \<noteq> CHR ''-''" by simp
  with n(3) have "getScreenshotFilename (''my-flow-v2'' @ ''.json'') = getScreenshotFilename ?p"
    unfolding name by blast
  moreover have "hd ''my-flow-v2'' \<noteq> CHR ''-''"
    using n(2) unfolding name by simp
  moreover have "length ''my-flow-v2'' < 50" by simp
  ultimately show ?thesis
    using val by simp
qed

text \<open>
  Counterexample to C3 as stated: applied to its own output \<^verbatim>\<open>my-flow.png\<close> the
  transform gives \<^verbatim>\<open>my-flow-png.png\<close>; and a base name of 49 letters, a space and
  one more letter gives an output of 54 code units whose name part ends in a hyphen.
\<close>

theorem getScreenshotFilename_not_idempotent:
  "getScreenshotFilename ''My Flow.json'' = ''my-flow.png''
   \<and> getScreenshotFilename (getScreenshotFilename ''My Flow.json'') = ''my-flow-png.png''
   \<and> getScreenshotFilename ''aaaaaaaaaaaaaaaaaaaaaaaaaaaaaaaaaaaaaaaaaaaaaaaaa B.json''
       = ''aaaaaaaaaaaaaaaaaaaaaaaaaaaaaaaaaaaaaaaaaaaaaaaaa-.png''
   \<and> length (getScreenshotFilename ''aaaaaaaaaaaaaaaaaaaaaaaaaaaaaaaaaaaaaaaaaaaaaaaaa B.json'') = 54"
  by code_simp

lemma getCategory_loop_find:
  "k \<le> length parts \<Longrightarrow>
   getCategory_loop parts k =
     (case find (\<lambda>dir. str_includes dir ''_'' \<or> dir = ''devops'') (rev (take k parts)) of
        Some dir \<Rightarrow> dir
      | None \<Rightarrow> ''Other_Integrations_and_Use_Cases'')"
proof (induction k)
  case 0
  then show ?case by simp
next
  case (Suc k)
  then have "take (Suc k) parts = take k parts @ [parts ! k]"
    by (simp add: take_Suc_conv_app_nth)
  with Suc show ?case by (simp add: Let_def)
qed

lemma str_split_nonempty: "str_split s sep \<noteq> []"
  by (induction s) (auto split: list.splits)

text \<open>
  Claim C10: \<^verbatim>\<open>getCategory\<close> depends on the directory segments of the path only,
  that is on all parts but the last. It returns the first of them, going from the file
  upwards, that contains an underscore or is \<^verbatim>\<open>devops\<close>, and the default
  \<^verbatim>\<open>Other_Integrations_and_Use_Cases\<close> when there is none.
\<close>

theorem getCategory_directories_only:
  "str_split p path_sep \<noteq> [] \<and>
   getCategory p =
     (case find (\<lambda>dir. str_includes dir ''_'' \<or> dir = ''devops'')
             (rev (butlast (str_split p path_sep))) of
        Some dir \<Rightarrow> dir
      | None \<Rightarrow> ''Other_Integrations_and_Use_Cases'')"
  by (simp add: getCategory_def Let_def getCategory_loop_find butlast_conv_take str_split_nonempty)

section \<open>Steps: computation rules\<close>

lemma await_pure [step_simps]: "await (pure x) f tr = f x tr"
  by (simp add: await_def pure_def split: prod.splits)

lemma await_throw [step_simps]: "await (throw e) f tr = (Inl e, [])"
  by (simp add: await_def throw_def)

lemma await_emit [step_simps]:
  "await (emit ev) f tr = (fst (f () (tr @ [ev])), ev # snd (f () (tr @ [ev])))"
  by (simp add: await_def emit_def split: prod.splits)

lemma await_sleep [step_simps]:
  "await (sleep ms) f tr = (fst (f () (tr @ [Sleep ms])), Sleep ms # snd (f () (tr @ [Sleep ms])))"
  by (simp add: sleep_def await_emit)

lemma await_lift [step_simps]:
  "await (lift r) f tr = (case r of Inl e \<Rightarrow> (Inl e, []) | Inr x \<Rightarrow> f x tr)"
  by (simp add: await_def lift_def split: prod.splits sum.splits)

lemma await_attempt [step_simps]:
  "await (attempt m) f tr =
     (fst (f (fst (m tr)) (tr @ snd (m tr))), snd (m tr) @ snd (f (fst (m tr)) (tr @ snd (m tr))))"
  by (simp add: await_def attempt_def split: prod.splits)

lemma await_Inl: "fst (m tr) = Inl e \<Longrightarrow> await m f tr = (Inl e, snd (m tr))"
  by (cases "m tr") (auto simp: await_def split: prod.splits)

lemma await_Inr:
  "fst (m tr) = Inr x \<Longrightarrow>
   await m f tr = (fst (f x (tr @ snd (m tr))), snd (m tr) @ snd (f x (tr @ snd (m tr))))"
  by (cases "m tr") (auto simp: await_def split: prod.splits)

lemma fst_axios:
  "fst (axios w req ok tr) =
     (case net w tr req of
        NetworkError msg \<Rightarrow> Inl (Error msg None)
      | Responded r \<Rightarrow>
          if ok (status r) then Inr r
          else Inl (Error (''Request failed with status code '' @ string_of_nat (status r))
                          (Some r)))"
  by (simp add: axios_def split: net_result.splits)

lemma snd_axios [step_simps]: "snd (axios w req ok tr) = [Http req]"
  by (simp add: axios_def split: net_result.splits)

lemma pure_apply [step_simps]: "pure x tr = (Inr x, [])"
  by (simp add: pure_def)

lemma throw_apply [step_simps]: "throw e tr = (Inl e, [])"
  by (simp add: throw_def)

lemma lift_apply [step_simps]: "lift r tr = (r, [])"
  by (simp add: lift_def)

lemma emit_apply [step_simps]: "emit ev tr = (Inr (), [ev])"
  by (simp add: emit_def)

lemma sleep_apply [step_simps]: "sleep ms tr = (Inr (), [Sleep ms])"
  by (simp add: sleep_def emit_def)

lemma attempt_apply [step_simps]: "attempt m tr = (Inr (fst (m tr)), snd (m tr))"
  by (simp add: attempt_def split: prod.splits)

section \<open>The existence check\<close>

text \<open>
  Claim C7: with the skip-existing toggle on, \<^verbatim>\<open>screenshotExists\<close> sends one request
  for the expected path and returns \<^verbatim>\<open>true\<close> exactly when the store answers with
  status 200; status 404, any other status and a transport failure all give
  \<^verbatim>\<open>false\<close>. With the toggle off it returns \<^verbatim>\<open>false\<close> and sends no request.
\<close>

theorem screenshotExists_only_on_200:
  "screenshotExists cfg w category filename tr =
     (let request = HttpGet (''https://api.github.com/repos/'' @ githubRepo cfg
                              @ ''/contents/screenshots/'' @ category @ ''/'' @ filename)
                            (github_headers cfg)
      in if skipExisting cfg then
           (Inr (case net w (tr @ [Enter_screenshotExists category filename]) request of
                   Responded r \<Rightarrow> status r = 200
                 | NetworkError msg \<Rightarrow> False),
            [Enter_screenshotExists category filename, Http request])
         else (Inr False, [Enter_screenshotExists category filename]))"
  by (simp add: screenshotExists_def Let_def fst_axios step_simps
        split: net_result.splits sum.splits)

section \<open>The importer\<close>

lemma await_axios:
  "await (axios w req ok) f tr =
     (case fst (axios w req ok tr) of
        Inl e \<Rightarrow> (Inl e, [Http req])
      | Inr r \<Rightarrow> (fst (f r (tr @ [Http req])), Http req # snd (f r (tr @ [Http req]))))"
  by (cases "fst (axios w req ok tr)") (simp_all add: await_Inl await_Inr snd_axios)








section \<open>The publisher\<close>

text \<open>
  Claim C9: \<^verbatim>\<open>uploadToGitHub\<close> first asks the store for the destination path. When
  that request succeeds and the answer holds a version token \<^verbatim>\<open>sha\<close>, the payload of
  the upload refers to it (an update); otherwise the payload has no \<^verbatim>\<open>sha\<close> (a
  create). In both cases the upload goes to the same path, and when the store accepts
  it the function returns the raw-content URL of that path.
\<close>

theorem uploadToGitHub_update_or_create:
  "let filePath = ''screenshots/'' @ category @ ''/'' @ filename;
       api = ''https://api.github.com/repos/'' @ githubRepo cfg @ ''/contents/'' @ filePath;
       lookup = HttpGet api (github_headers cfg);
       tr1 = tr @ [Enter_uploadToGitHub category filename imageBuffer];
       sha = (case net w tr1 lookup of
                Responded r \<Rightarrow>
                  if default_validateStatus (status r)
                  then (case get_prop (body r) ''sha'' of Inr v \<Rightarrow> v | Inl e \<Rightarrow> JNull)
                  else JNull
              | NetworkError msg \<Rightarrow> JNull);
       payload =
         (if truthy sha then
            JObj [(''message'', JStr (''Update screenshot: '' @ filename)),
                  (''content'', JStr (base64 w imageBuffer)),
                  (''branch'', JStr ''main''),
                  (''sha'', sha)]
          else
            JObj [(''message'', JStr (''Add screenshot: '' @ filename)),
                  (''content'', JStr (base64 w imageBuffer)),
                  (''branch'', JStr ''main'')]);
       upload = HttpPut api payload (github_headers cfg)
   in snd (uploadToGitHub cfg w category filename imageBuffer tr) =
        [Enter_uploadToGitHub category filename imageBuffer, Http lookup, Http upload]
      \<and> (\<forall>r. net w (tr1 @ [Http lookup]) upload = Responded r
               \<and> default_validateStatus (status r) \<longrightarrow>
             fst (uploadToGitHub cfg w category filename imageBuffer tr) =
               Inr (''https://raw.githubusercontent.com/'' @ githubRepo cfg @ ''/main/''
                    @ filePath))"
  by (auto simp: uploadToGitHub_def Let_def await_axios fst_axios step_simps
           split: net_result.splits sum.splits)

text \<open>
  Witness for C9: a store that answers the lookup with the version token
  \<^verbatim>\<open>abc123\<close> gets an update that refers to it, and a store that answers 404 gets a
  create; both accept the upload, and the function returns the same URL.
\<close>

theorem uploadToGitHub_update_or_create_witness:
  "snd (uploadToGitHub example_config world_existing ''devops'' ''my-flow.png'' ''PNG'' []) =
     [Enter_uploadToGitHub ''devops'' ''my-flow.png'' ''PNG'',
      Http (HttpGet ''https://api.github.com/repos/acme/shots/contents/screenshots/devops/my-flow.png''
              (github_headers example_config)),
      Http (HttpPut ''https://api.github.com/repos/acme/shots/contents/screenshots/devops/my-flow.png''
              (JObj [(''message'', JStr ''Update screenshot: my-flow.png''),
                     (''content'', JStr ''UE5H''),
                     (''branch'', JStr ''main''),
                     (''sha'', JStr ''abc123'')])
              (github_headers example_config))]
   \<and> fst (uploadToGitHub example_config world_existing ''devops'' ''my-flow.png'' ''PNG'' []) =
       Inr ''https://raw.githubusercontent.com/acme/shots/main/screenshots/devops/my-flow.png''
   \<and> snd (uploadToGitHub example_config world_ok ''devops'' ''my-flow.png'' ''PNG'' []) =
     [Enter_uploadToGitHub ''devops'' ''my-flow.png'' ''PNG'',
      Http (HttpGet ''https://api.github.com/repos/acme/shots/contents/screenshots/devops/my-flow.png''
              (github_headers example_config)),
      Http (HttpPut ''https://api.github.com/repos/acme/shots/contents/screenshots/devops/my-flow.png''
              (JObj [(''message'', JStr ''Add screenshot: my-flow.png''),
                     (''content'', JStr ''UE5H''),
                     (''branch'', JStr ''main'')])
              (github_headers example_config))]
   \<and> fst (uploadToGitHub example_config world_ok ''devops'' ''my-flow.png'' ''PNG'' []) =
       Inr ''https://raw.githubusercontent.com/acme/shots/main/screenshots/devops/my-flow.png''"
proof -
  have repo: "githubRepo example_config = ''acme/shots''"
    by (simp add: example_config_def CONFIG_def example_env_def or_default_def)
  have existing:
    "net world_existing tr (HttpGet url h) =
       Responded \<lparr>status = 200, body = JObj [(''sha'', JStr ''abc123'')]\<rparr>"
    "net world_existing tr (HttpPut url p h) = Responded \<lparr>status = 201, body = JObj []\<rparr>"
    "base64 world_existing ''PNG'' = ''UE5H''"
    for tr url h p
    by (simp_all add: world_existing_def world_ok_def)
  have ok:
    "net world_ok tr (HttpGet url h) =
       Responded \<lparr>status = 404, body = JObj [(''message'', JStr ''Not Found'')]\<rparr>"
    "net world_ok tr (HttpPut url p h) = Responded \<lparr>status = 201, body = JObj []\<rparr>"
    "base64 world_ok ''PNG'' = ''UE5H''"
    for tr url h p
    by (simp_all add: world_ok_def)
  show ?thesis
    using uploadToGitHub_update_or_create
            [of "''devops''" "''my-flow.png''" example_config "[]" "''PNG''" world_existing]
          uploadToGitHub_update_or_create
            [of "''devops''" "''my-flow.png''" example_config "[]" "''PNG''" world_ok]
    by (simp add: Let_def repo existing ok default_validateStatus_def)
qed

section \<open>Which events a step emits\<close>

lemma emits_onlyD: "emits_only P m \<Longrightarrow> ev \<in> set (snd (m tr)) \<Longrightarrow> P ev"
  by (auto simp: emits_only_def)

lemma emits_only_pure [intro!]: "emits_only P (pure x)"
  by (simp add: emits_only_def step_simps)

lemma emits_only_throw [intro!]: "emits_only P (throw e)"
  by (simp add: emits_only_def step_simps)

lemma emits_only_lift [intro!]: "emits_only P (lift r)"
  by (simp add: emits_only_def step_simps)

lemma emits_only_emit [intro!]: "P ev \<Longrightarrow> emits_only P (emit ev)"
  by (simp add: emits_only_def step_simps)

lemma emits_only_sleep [intro!]: "P (Sleep ms) \<Longrightarrow> emits_only P (sleep ms)"
  by (simp add: emits_only_def step_simps)

lemma emits_only_await [intro!]:
  "emits_only P m \<Longrightarrow> (\<And>x. emits_only P (f x)) \<Longrightarrow> emits_only P (await m f)"
  unfolding emits_only_def await_def
  by (auto split: prod.splits sum.splits) (metis snd_conv)+

lemma emits_only_attempt [intro!]: "emits_only P m \<Longrightarrow> emits_only P (attempt m)"
  by (simp add: emits_only_def step_simps)

lemma emits_only_try_finally [intro!]:
  "emits_only P m \<Longrightarrow> emits_only P c \<Longrightarrow> emits_only P (try_finally m c)"
  unfolding try_finally_def by (auto split: sum.splits)

lemma emits_only_axios [intro!]: "P (Http req) \<Longrightarrow> emits_only P (axios w req ok)"
  by (simp add: emits_only_def step_simps)

lemma emits_only_fs [intro!]:
  "P (ReadFile file) \<Longrightarrow> emits_only P (fs_readFileSync w file)"
  "P (WriteFile file content) \<Longrightarrow> emits_only P (fs_writeFileSync w file content)"
  "P (ExistsSync file) \<Longrightarrow> emits_only P (fs_existsSync w file)"
  "P (MkdirSync file) \<Longrightarrow> emits_only P (fs_mkdirSync w file)"
  "P (Glob pattern ignore) \<Longrightarrow> emits_only P (glob_files w pattern ignore)"
  by (simp_all add: emits_only_def fs_readFileSync_def fs_writeFileSync_def fs_existsSync_def
        fs_mkdirSync_def glob_files_def)

lemma emits_only_browser [intro!]:
  "P Launch \<Longrightarrow> emits_only P (puppeteer_launch w)"
  "P NewPage \<Longrightarrow> emits_only P (browser_newPage w)"
  "P BrowserClose \<Longrightarrow> emits_only P (browser_do_close w)"
  "P (Page c) \<Longrightarrow> emits_only P (page_do w c)"
  "P PageContent \<Longrightarrow> emits_only P (page_get_content w)"
  "P (PageEvaluate script) \<Longrightarrow> emits_only P (page_eval w script)"
  "P PageScreenshot \<Longrightarrow> emits_only P (page_take_screenshot w)"
  "emits_only P (current_time w)"
  by (simp_all add: emits_only_def puppeteer_launch_def browser_newPage_def browser_do_close_def
        page_do_def page_get_content_def page_eval_def page_take_screenshot_def
        current_time_def)

lemma emits_only_if [intro!]:
  "(c \<Longrightarrow> emits_only P a) \<Longrightarrow> (\<not> c \<Longrightarrow> emits_only P b) \<Longrightarrow> emits_only P (if c then a else b)"
  by simp

lemma emits_only_case_sum [intro!]:
  "(\<And>e. emits_only P (f e)) \<Longrightarrow> (\<And>x. emits_only P (g x)) \<Longrightarrow>
   emits_only P (case r of Inl e \<Rightarrow> f e | Inr x \<Rightarrow> g x)"
  by (cases r) simp_all

lemma emits_only_case_option [intro!]:
  "emits_only P a \<Longrightarrow> (\<And>x. emits_only P (g x)) \<Longrightarrow>
   emits_only P (case r of None \<Rightarrow> a | Some x \<Rightarrow> g x)"
  by (cases r) simp_all

lemma emits_only_case_prod [intro!]:
  "(\<And>a b. emits_only P (f a b)) \<Longrightarrow> emits_only P (case r of (a, b) \<Rightarrow> f a b)"
  by (cases r) simp

lemma emits_only_Let [intro!]: "emits_only P (f x) \<Longrightarrow> emits_only P (let y = x in f y)"
  by simp

text \<open>
  The events of the existence check, the capture service, the publisher and the local
  backup, when the predicate holds for every event but the entries into the
  orchestrator's own functions.
\<close>

lemma emits_only_screenshotExists:
  "P (Enter_screenshotExists category filename) \<Longrightarrow> (\<And>req. P (Http req)) \<Longrightarrow>
   emits_only P (screenshotExists cfg w category filename)"
  unfolding screenshotExists_def by auto

lemma emits_only_wait_for_selectors:
  "(\<And>c. P (Page c)) \<Longrightarrow> emits_only P (wait_for_selectors w sels)"
  by (induction sels) auto

lemma emits_only_takeScreenshot:
  assumes "P (Enter_takeScreenshot workflowId)" "P NewPage" "\<And>c. P (Page c)" "P PageContent"
    "\<And>s. P (PageEvaluate s)" "P PageScreenshot" "\<And>f c. P (WriteFile f c)" "\<And>n. P (Sleep n)"
  shows "emits_only P (takeScreenshot cfg w workflowId)"
  unfolding takeScreenshot_def takeScreenshot_try_def
  using assms by (auto intro: emits_only_wait_for_selectors)

lemma emits_only_uploadToGitHub:
  "P (Enter_uploadToGitHub category filename buffer) \<Longrightarrow> (\<And>req. P (Http req)) \<Longrightarrow>
   emits_only P (uploadToGitHub cfg w category filename buffer)"
  unfolding uploadToGitHub_def by auto

section \<open>Remote handles\<close>

lemma handles_released_neutral:
  "\<forall>ev\<in>set evs. neutral ev \<Longrightarrow> handles_released h (evs @ rest) = handles_released h rest"
proof (induction evs)
  case Nil
  then show ?case by simp
next
  case (Cons ev evs)
  then show ?case by (cases ev) simp_all
qed

lemma handles_released_emits_neutral:
  "emits_only neutral m \<Longrightarrow> handles_released h (snd (m tr) @ rest) = handles_released h rest"
  by (intro handles_released_neutral) (auto dest: emits_onlyD)

lemma screenshotExists_returns: "\<exists>b. fst (screenshotExists cfg w category filename tr) = Inr b"
  by (auto simp: screenshotExists_def Let_def step_simps split: sum.splits)

lemma neutral_screenshotExists: "emits_only neutral (screenshotExists cfg w category filename)"
  by (intro emits_only_screenshotExists) simp_all

lemma neutral_capture:
  "emits_only neutral (processWorkflow_capture cfg w name category filename workflowId)"
  unfolding processWorkflow_capture_def
  by (auto intro!: emits_only_takeScreenshot emits_only_uploadToGitHub)

lemma deleteWorkflow_apply:
  "deleteWorkflow cfg w i tr =
     (Inr (), [Enter_deleteWorkflow i,
               Http (HttpDelete (n8nUrl cfg @ ''/api/v1/workflows/'' @ to_string i)
                       [(''X-N8N-API-KEY'', n8nApiKey cfg)])])"
  by (simp add: deleteWorkflow_def step_simps)

lemma importWorkflow_try_handles:
  "handles_released h (snd (importWorkflow_try cfg w j tr) @ rest) =
     (case fst (importWorkflow_try cfg w j tr) of
        Inl e \<Rightarrow> handles_released h rest
      | Inr i \<Rightarrow> truthy i \<and> h = None \<and> handles_released (Some i) rest)"
  by (auto simp: importWorkflow_try_def await_axios step_simps split: sum.splits)

lemma importWorkflow_handles:
  "handles_released h (snd (importWorkflow cfg w j tr) @ rest) =
     (case fst (importWorkflow cfg w j tr) of
        Inl e \<Rightarrow> handles_released h rest
      | Inr i \<Rightarrow> truthy i \<and> h = None \<and> handles_released (Some i) rest)"
  using importWorkflow_try_handles [of h cfg w j "tr @ [Enter_importWorkflow j]" rest]
  by (auto simp: importWorkflow_def step_simps split: sum.splits option.splits)

lemma processWorkflow_import_apply:
  "processWorkflow_import cfg w p tr =
     (case readFileSync w tr p of
        Inl e \<Rightarrow> (Inl e, [ReadFile p])
      | Inr content \<Rightarrow>
          (case JSON_parse w content of
             Inl e \<Rightarrow> (Inl e, [ReadFile p])
           | Inr j \<Rightarrow> (fst (importWorkflow cfg w j (tr @ [ReadFile p])),
                       ReadFile p # snd (importWorkflow cfg w j (tr @ [ReadFile p])))))"
  by (simp add: processWorkflow_import_def fs_readFileSync_def await_def lift_def
        split: sum.splits prod.splits)

lemma processWorkflow_import_handles:
  "handles_released h (snd (processWorkflow_import cfg w p tr) @ rest) =
     (case fst (processWorkflow_import cfg w p tr) of
        Inl e \<Rightarrow> handles_released h rest
      | Inr i \<Rightarrow> truthy i \<and> h = None \<and> handles_released (Some i) rest)"
  by (simp add: processWorkflow_import_apply importWorkflow_handles split: sum.splits)

lemma importWorkflow_try_truthy:
  "fst (importWorkflow_try cfg w j tr) = Inr i \<Longrightarrow> truthy i"
  by (auto simp: importWorkflow_try_def await_axios step_simps split: sum.splits if_splits)

lemma importWorkflow_truthy: "fst (importWorkflow cfg w j tr) = Inr i \<Longrightarrow> truthy i"
  using importWorkflow_try_truthy [of cfg w j "tr @ [Enter_importWorkflow j]"]
  by (auto simp: importWorkflow_def step_simps split: sum.splits option.splits)

lemma processWorkflow_import_truthy:
  "fst (processWorkflow_import cfg w p tr) = Inr i \<Longrightarrow> truthy i"
  by (auto simp: processWorkflow_import_apply importWorkflow_truthy split: sum.splits)

lemma processWorkflow_try_returns:
  "\<exists>workflowId tried. fst (processWorkflow_try cfg w p name category filename tr) =
     Inr (workflowId, tried)"
  by (simp add: processWorkflow_try_def step_simps split: sum.splits)

lemma processWorkflow_try_handles:
  assumes "fst (processWorkflow_try cfg w p name category filename tr) = Inr (workflowId, tried)"
  shows "handles_released h (snd (processWorkflow_try cfg w p name category filename tr) @ rest) =
     (if truthy workflowId then h = None \<and> handles_released (Some workflowId) rest
      else handles_released h rest)"
proof (cases "fst (processWorkflow_import cfg w p tr)")
  case (Inl e)
  with assms have "workflowId = JNull"
    by (simp add: processWorkflow_try_def step_simps)
  with Inl show ?thesis
    using processWorkflow_import_handles [of h cfg w p tr rest]
    by (simp add: processWorkflow_try_def step_simps)
next
  case (Inr i)
  with assms have i: "workflowId = i"
    by (simp add: processWorkflow_try_def step_simps)
  have "handles_released h (snd (processWorkflow_import cfg w p tr) @ rest') =
          (truthy i \<and> h = None \<and> handles_released (Some i) rest')" for rest'
    using processWorkflow_import_handles [of h cfg w p tr rest'] Inr by simp
  moreover have "handles_released h' (snd (processWorkflow_capture cfg w name category filename i tr') @ rest)
      = handles_released h' rest" for h' tr'
    by (intro handles_released_emits_neutral neutral_capture)
  moreover have "truthy i"
    using Inr by (rule processWorkflow_import_truthy)
  ultimately show ?thesis
    using Inr i by (simp add: processWorkflow_try_def step_simps)
qed

lemma processWorkflow_returns:
  "\<exists>result st'. fst (processWorkflow cfg w st p tr) = Inr (result, st')"
proof -
  obtain b where b: "fst (screenshotExists cfg w (getCategory p) (getScreenshotFilename p)
                       (tr @ [Enter_processWorkflow p])) = Inr b"
    using screenshotExists_returns by blast
  let ?tr2 = "tr @ Enter_processWorkflow p
                # snd (screenshotExists cfg w (getCategory p) (getScreenshotFilename p)
                        (tr @ [Enter_processWorkflow p]))"
  obtain workflowId tried where t:
    "fst (processWorkflow_try cfg w p (basename p []) (getCategory p) (getScreenshotFilename p)
            ?tr2) = Inr (workflowId, tried)"
    using processWorkflow_try_returns by blast
  show ?thesis
    using b t
    by (cases tried)
       (simp_all add: processWorkflow_def Let_def await_Inr deleteWorkflow_apply step_simps)
qed

lemma processWorkflow_handles:
  "handles_released h (snd (processWorkflow cfg w st p tr) @ rest) =
     (h = None \<and> handles_released None rest)"
proof -
  let ?ex = "screenshotExists cfg w (getCategory p) (getScreenshotFilename p)
               (tr @ [Enter_processWorkflow p])"
  obtain b where b: "fst ?ex = Inr b"
    using screenshotExists_returns by blast
  have ex: "handles_released h' (snd ?ex @ rest') = handles_released h' rest'" for h' rest'
    by (intro handles_released_emits_neutral neutral_screenshotExists)
  let ?tr2 = "tr @ Enter_processWorkflow p # snd ?ex"
  let ?block = "processWorkflow_try cfg w p (basename p []) (getCategory p)
                (getScreenshotFilename p) ?tr2"
  obtain workflowId tried where t: "fst ?block = Inr (workflowId, tried)"
    using processWorkflow_try_returns by blast
  have tried: "handles_released h' (snd ?block @ rest') =
      (if truthy workflowId then h' = None \<and> handles_released (Some workflowId) rest'
       else handles_released h' rest')" for h' rest'
    using t by (rule processWorkflow_try_handles)
  show ?thesis
  proof (cases b)
    case True
    with b ex show ?thesis
      by (simp add: processWorkflow_def Let_def await_Inr step_simps)
  next
    case False
    with b t ex tried show ?thesis
      by (cases tried)
         (simp_all add: processWorkflow_def Let_def await_Inr deleteWorkflow_apply step_simps)
  qed
qed

lemma balancedD:
  "balanced m \<Longrightarrow> handles_released None (snd (m tr) @ rest) = handles_released None rest"
  by (simp add: balanced_def)

lemma balanced_neutral: "emits_only neutral m \<Longrightarrow> balanced m"
  by (simp add: balanced_def handles_released_emits_neutral)

lemma balanced_pure [intro!]: "balanced (pure x)"
  by (simp add: balanced_def step_simps)

lemma balanced_await [intro!]:
  assumes "balanced m" and "\<And>x. balanced (f x)"
  shows "balanced (await m f)"
  unfolding balanced_def
proof (intro allI)
  fix tr rest
  show "handles_released None (snd (await m f tr) @ rest) = handles_released None rest"
  proof (cases "fst (m tr)")
    case (Inl e)
    then show ?thesis
      using assms(1) by (simp add: await_Inl balancedD)
  next
    case (Inr x)
    then show ?thesis
      using balancedD [OF assms(1), of tr "snd (f x (tr @ snd (m tr))) @ rest"]
            balancedD [OF assms(2), of x "tr @ snd (m tr)" rest]
      by (simp add: await_Inr)
  qed
qed

lemma balanced_attempt [intro!]: "balanced m \<Longrightarrow> balanced (attempt m)"
  by (simp add: balanced_def step_simps)

lemma balanced_try_finally [intro!]:
  "balanced m \<Longrightarrow> balanced c \<Longrightarrow> balanced (try_finally m c)"
  unfolding try_finally_def
  by (intro balanced_await balanced_attempt) (auto intro: balanced_neutral split: sum.splits)

lemma balanced_if [intro!]:
  "(c \<Longrightarrow> balanced a) \<Longrightarrow> (\<not> c \<Longrightarrow> balanced b) \<Longrightarrow> balanced (if c then a else b)"
  by simp

lemma balanced_case_prod [intro!]:
  "(\<And>a b. balanced (f a b)) \<Longrightarrow> balanced (case r of (a, b) \<Rightarrow> f a b)"
  by (cases r) simp

lemma balanced_Let [intro!]: "balanced (f x) \<Longrightarrow> balanced (let y = x in f y)"
  by simp

lemma balanced_processWorkflow: "balanced (processWorkflow cfg w st p)"
  by (simp add: balanced_def processWorkflow_handles)

lemma balanced_main_loop: "balanced (main_loop cfg w st results files)"
proof (induction files arbitrary: st results)
  case Nil
  show ?case unfolding main_loop.simps by (rule balanced_pure)
next
  case (Cons p ps)
  show ?case
    unfolding main_loop.simps
    by (intro balanced_await balanced_processWorkflow balanced_case_prod balanced_Let
          balanced_if Cons.IH balanced_neutral emits_only_sleep emits_only_pure)
       simp
qed

lemma neutral_loginToN8n: "emits_only neutral (loginToN8n cfg w)"
  unfolding loginToN8n_def by auto

lemma neutral_main_login: "emits_only neutral (main_login cfg w)"
  unfolding main_login_def by (auto intro: neutral_loginToN8n)

lemma neutral_filter_workflows: "emits_only neutral (filter_workflows w files)"
proof (induction files)
  case Nil
  show ?case unfolding filter_workflows.simps by (rule emits_only_pure)
next
  case (Cons f fs)
  show ?case
    unfolding filter_workflows.simps
    by (intro emits_only_await emits_only_attempt emits_only_fs emits_only_lift emits_only_if
          emits_only_pure emits_only_Let Cons.IH)
       simp
qed

lemma neutral_getWorkflowFiles: "emits_only neutral (getWorkflowFiles cfg w)"
  unfolding getWorkflowFiles_def by (auto intro: neutral_filter_workflows)

lemma balanced_main: "balanced (main cfg w)"
  unfolding main_def
  by (intro balanced_if balanced_pure balanced_await balanced_Let balanced_try_finally
        balanced_case_prod balanced_main_loop
        balanced_neutral [OF neutral_getWorkflowFiles]
        balanced_neutral [OF neutral_main_login]
        balanced_neutral [OF emits_only_browser(1)]
        balanced_neutral [OF emits_only_browser(3)]
        balanced_neutral [OF emits_only_browser(8)]
        balanced_neutral [OF emits_only_fs(2)])
     simp_all

text \<open>
  Claim C1: in every run, whatever the engine, the store, the browser and the file
  system do, each identifier that \<^verbatim>\<open>importWorkflow\<close> returns is passed to
  \<^verbatim>\<open>deleteWorkflow\<close> exactly once before \<^verbatim>\<open>processWorkflow\<close> is entered for the
  next item and before the run ends, and \<^verbatim>\<open>deleteWorkflow\<close> is entered for no other
  identifier.
\<close>

theorem remote_handles_released:
  "handles_released None (snd (main cfg w tr))"
  using balancedD [OF balanced_main, of cfg w tr "[]"] by simp

text \<open>
  An example for C1: the engine accepts the import and returns the identifier
  \<^verbatim>\<open>wf1\<close>, then the browser cannot open a page, so the capture fails. The entry into
  \<^verbatim>\<open>deleteWorkflow\<close> with \<^verbatim>\<open>wf1\<close> follows; without it the scan rejects the trace.
\<close>

theorem remote_handles_released_example:
  "handles_released None (snd (main example_config world_no_page []))
   \<and> filter (\<lambda>ev. \<not> neutral ev)
        (snd (processWorkflow example_config world_no_page initial_state
                ''templates/devops/My Flow.json'' []))
       = [Enter_processWorkflow ''templates/devops/My Flow.json'',
          Return_importWorkflow (JStr ''wf1''), Enter_deleteWorkflow (JStr ''wf1'')]
   \<and> \<not> handles_released None
         [Enter_processWorkflow ''templates/devops/My Flow.json'',
          Return_importWorkflow (JStr ''wf1'')]"
proof -
  have "handles_released None (snd (main example_config world_no_page []))"
    by (rule remote_handles_released)
  moreover have "filter (\<lambda>ev. \<not> neutral ev)
        (snd (processWorkflow example_config world_no_page initial_state
                ''templates/devops/My Flow.json'' []))
       = [Enter_processWorkflow ''templates/devops/My Flow.json'',
          Return_importWorkflow (JStr ''wf1''), Enter_deleteWorkflow (JStr ''wf1'')]"
    by code_simp
  ultimately show ?thesis by simp
qed

section \<open>The skip path\<close>

lemma no_pipeline_call_screenshotExists:
  "filter is_pipeline_call (snd (screenshotExists cfg w category filename tr)) = []"
proof -
  have "emits_only (\<lambda>ev. \<not> is_pipeline_call ev) (screenshotExists cfg w category filename)"
    by (intro emits_only_screenshotExists) simp_all
  then show ?thesis
    by (auto simp: filter_empty_conv dest: emits_onlyD)
qed

text \<open>
  Claim C4: when the existence check reports true for an item, \<^verbatim>\<open>processWorkflow\<close>
  returns \<^verbatim>\<open>null\<close>, adds one to \<^verbatim>\<open>skipped\<close> and changes nothing else in the
  state; its only events are its own entry and those of the existence check, and none of
  them is an entry into \<^verbatim>\<open>importWorkflow\<close>, \<^verbatim>\<open>takeScreenshot\<close> or
  \<^verbatim>\<open>uploadToGitHub\<close>.
\<close>

theorem processWorkflow_skips_existing:
  assumes "fst (screenshotExists cfg w (getCategory p) (getScreenshotFilename p)
                  (tr @ [Enter_processWorkflow p])) = Inr True"
  shows "fst (processWorkflow cfg w st p tr) = Inr (None, st\<lparr>skipped := skipped st + 1\<rparr>)
       \<and> snd (processWorkflow cfg w st p tr) =
           Enter_processWorkflow p
             # snd (screenshotExists cfg w (getCategory p) (getScreenshotFilename p)
                      (tr @ [Enter_processWorkflow p]))
       \<and> filter is_pipeline_call (snd (processWorkflow cfg w st p tr)) = []"
  using assms
  by (simp add: processWorkflow_def Let_def await_Inr step_simps
        no_pipeline_call_screenshotExists)

text \<open>
  Witness for C4: the store answers 200 for \<^verbatim>\<open>screenshots/devops/my-flow.png\<close>, and
  the item is skipped after the one request of the existence check.
\<close>

theorem processWorkflow_skips_existing_witness:
  "fst (screenshotExists example_config world_existing
          (getCategory ''templates/devops/My Flow.json'')
          (getScreenshotFilename ''templates/devops/My Flow.json'')
          ([] @ [Enter_processWorkflow ''templates/devops/My Flow.json''])) = Inr True
   \<and> fst (processWorkflow example_config world_existing initial_state
            ''templates/devops/My Flow.json'' []) =
       Inr (None, initial_state\<lparr>skipped := skipped initial_state + 1\<rparr>)
   \<and> filter is_pipeline_call
        (snd (processWorkflow example_config world_existing initial_state
                ''templates/devops/My Flow.json'' [])) = []"
proof -
  have present: "fst (screenshotExists example_config world_existing
          (getCategory ''templates/devops/My Flow.json'')
          (getScreenshotFilename ''templates/devops/My Flow.json'')
          ([] @ [Enter_processWorkflow ''templates/devops/My Flow.json''])) = Inr True"
    by code_simp
  note skip = processWorkflow_skips_existing [OF present, of initial_state]
  show ?thesis
    by (intro conjI present conjunct1 [OF skip] conjunct2 [OF conjunct2 [OF skip]])
qed

section \<open>Failure isolation\<close>

lemma processed_paths_append:
  "processed_paths (xs @ ys) = processed_paths xs @ processed_paths ys"
proof (induction xs)
  case Nil
  then show ?case by simp
next
  case (Cons ev xs)
  then show ?case by (cases ev) simp_all
qed

lemma processed_paths_none:
  "\<forall>ev\<in>set evs. processed_paths [ev] = [] \<Longrightarrow> processed_paths evs = []"
proof (induction evs)
  case Nil
  then show ?case by simp
next
  case (Cons ev evs)
  then show ?case
    using processed_paths_append [of "[ev]" evs] by simp
qed

lemma processed_paths_emits:
  "emits_only (\<lambda>ev. processed_paths [ev] = []) m \<Longrightarrow> processed_paths (snd (m tr)) = []"
  by (intro processed_paths_none) (auto dest: emits_onlyD)

lemma emits_only_importWorkflow:
  assumes "P (Enter_importWorkflow j)" "\<And>i. P (Return_importWorkflow i)" "\<And>req. P (Http req)"
  shows "emits_only P (importWorkflow cfg w j)"
  unfolding importWorkflow_def importWorkflow_try_def
  using assms by auto

lemma emits_only_processWorkflow_try:
  assumes "\<And>ev. processed_paths [ev] = [] \<Longrightarrow> (\<forall>i. ev \<noteq> Enter_deleteWorkflow i) \<Longrightarrow> P ev"
  shows "emits_only P (processWorkflow_try cfg w p name category filename)"
  unfolding processWorkflow_try_def processWorkflow_import_def processWorkflow_capture_def
  by (intro emits_only_await emits_only_attempt emits_only_fs emits_only_lift
        emits_only_importWorkflow emits_only_case_sum emits_only_pure emits_only_sleep
        emits_only_takeScreenshot emits_only_uploadToGitHub emits_only_Let emits_only_if assms)
     simp_all

lemma processed_paths_processWorkflow:
  "processed_paths (snd (processWorkflow cfg w st p tr)) = [p]"
proof -
  let ?P = "\<lambda>ev. processed_paths [ev] = []"
  have "emits_only ?P (screenshotExists cfg w c f)" for c f
    by (intro emits_only_screenshotExists) simp_all
  moreover have "emits_only ?P (processWorkflow_try cfg w p name c f)" for name c f
    by (intro emits_only_processWorkflow_try) simp
  moreover have "emits_only ?P (deleteWorkflow cfg w i)" for i
    unfolding deleteWorkflow_def by auto
  ultimately have "emits_only ?P
     (await (screenshotExists cfg w (getCategory p) (getScreenshotFilename p)) (\<lambda>present.
      if present then pure (None, st\<lparr>skipped := skipped st + 1\<rparr>)
      else
        await (processWorkflow_try cfg w p (basename p []) (getCategory p)
                 (getScreenshotFilename p))
          (\<lambda>(workflowId, tried).
        let (result, st1) =
              (case tried of
                 Inr r \<Rightarrow> (Some r, st\<lparr>succeeded := succeeded st + 1\<rparr>)
               | Inl error \<Rightarrow>
                   (None, st\<lparr>failed := failed st + 1,
                              errors := errors st @ [(basename p [], message error)]\<rparr>))
        in
        await (if truthy workflowId then deleteWorkflow cfg w workflowId else pure ()) (\<lambda>_.
        pure (result, st1\<lparr>processed := processed st1 + 1\<rparr>)))))"
    by (intro emits_only_await emits_only_if emits_only_pure emits_only_case_prod
          emits_only_Let)
  then show ?thesis
    by (simp add: processWorkflow_def Let_def await_emit processed_paths_emits)
qed

lemma main_loop_returns:
  "\<exists>st' results'. fst (main_loop cfg w st results files tr) = Inr (st', results')"
proof (induction files arbitrary: st results tr)
  case Nil
  show ?case by (simp add: step_simps)
next
  case (Cons p ps)
  obtain result st1 where pw: "fst (processWorkflow cfg w st p tr) = Inr (result, st1)"
    using processWorkflow_returns by blast
  show ?case
    using pw Cons.IH by (simp add: await_Inr step_simps)
qed

lemma processed_paths_main_loop:
  "processed_paths (snd (main_loop cfg w st results files tr)) = files"
proof (induction files arbitrary: st results tr)
  case Nil
  show ?case by (simp add: step_simps)
next
  case (Cons p ps)
  obtain result st1 where pw: "fst (processWorkflow cfg w st p tr) = Inr (result, st1)"
    using processWorkflow_returns by blast
  show ?case
    using pw Cons.IH
    by (simp add: await_Inr step_simps processed_paths_append processed_paths_processWorkflow)
qed

lemma emits_at_mostD:
  "emits_at_most P n m \<Longrightarrow> length (filter P (snd (m tr))) \<le> n"
  by (simp add: emits_at_most_def)

lemma emits_at_most_none: "emits_only (\<lambda>ev. \<not> P ev) m \<Longrightarrow> emits_at_most P 0 m"
  by (auto simp: emits_at_most_def filter_empty_conv dest: emits_onlyD)

lemma emits_at_most_mono: "emits_at_most P a m \<Longrightarrow> a \<le> n \<Longrightarrow> emits_at_most P n m"
  by (auto simp: emits_at_most_def intro: order_trans)

lemma emits_at_most_await:
  assumes "emits_at_most P a m" and "\<And>x. emits_at_most P b (f x)" and "a + b \<le> n"
  shows "emits_at_most P n (await m f)"
  unfolding emits_at_most_def
proof
  fix tr
  show "length (filter P (snd (await m f tr))) \<le> n"
  proof (cases "fst (m tr)")
    case (Inl e)
    then show ?thesis
      using emits_at_mostD [OF assms(1), of tr] assms(3) by (simp add: await_Inl)
  next
    case (Inr x)
    then show ?thesis
      using emits_at_mostD [OF assms(1), of tr]
            emits_at_mostD [OF assms(2), of x "tr @ snd (m tr)"] assms(3)
      by (simp add: await_Inr)
  qed
qed

lemma emits_at_most_attempt: "emits_at_most P n m \<Longrightarrow> emits_at_most P n (attempt m)"
  by (simp add: emits_at_most_def step_simps)

lemma emits_at_most_entry:
  assumes "emits_only (\<lambda>ev. \<not> P ev) (f ())"
  shows "emits_at_most P (if P ev then 1 else 0) (await (emit ev) f)"
  using assms
  by (auto simp: emits_at_most_def step_simps filter_empty_conv dest: emits_onlyD)

lemma importWorkflow_entries:
  "emits_at_most (is_entry_of stage) (if stage = ''importWorkflow'' then 1 else 0)
     (importWorkflow cfg w j)"
proof -
  have "emits_at_most (is_entry_of stage)
          (if is_entry_of stage (Enter_importWorkflow j) then 1 else 0) (importWorkflow cfg w j)"
    unfolding importWorkflow_def importWorkflow_try_def
    by (rule emits_at_most_entry) auto
  then show ?thesis by simp
qed

lemma takeScreenshot_entries:
  "emits_at_most (is_entry_of stage) (if stage = ''takeScreenshot'' then 1 else 0)
     (takeScreenshot cfg w i)"
proof -
  have "emits_at_most (is_entry_of stage)
          (if is_entry_of stage (Enter_takeScreenshot i) then 1 else 0) (takeScreenshot cfg w i)"
    unfolding takeScreenshot_def takeScreenshot_try_def
    by (rule emits_at_most_entry) (auto intro: emits_only_wait_for_selectors)
  then show ?thesis by simp
qed

lemma uploadToGitHub_entries:
  "emits_at_most (is_entry_of stage) (if stage = ''uploadToGitHub'' then 1 else 0)
     (uploadToGitHub cfg w c f b)"
proof -
  have "emits_at_most (is_entry_of stage)
          (if is_entry_of stage (Enter_uploadToGitHub c f b) then 1 else 0)
          (uploadToGitHub cfg w c f b)"
    unfolding uploadToGitHub_def
    by (rule emits_at_most_entry) auto
  then show ?thesis by simp
qed

lemma processWorkflow_import_entries:
  "emits_at_most (is_entry_of stage) (if stage = ''importWorkflow'' then 1 else 0)
     (processWorkflow_import cfg w p)"
proof -
  let ?imp = "if stage = ''importWorkflow'' then 1 else (0::nat)"
  have parsed: "emits_at_most (is_entry_of stage) ?imp
     (await (lift (JSON_parse w content)) (\<lambda>workflowJson. importWorkflow cfg w workflowJson))"
    for content
    by (intro emits_at_most_none emits_only_lift importWorkflow_entries
          emits_at_most_await [where a = 0 and b = ?imp])
       simp_all
  show ?thesis
    unfolding processWorkflow_import_def
    by (intro emits_at_most_none emits_only_fs parsed
          emits_at_most_await [where a = 0 and b = ?imp])
       simp_all
qed

lemma processWorkflow_capture_entries:
  "emits_at_most (is_entry_of stage)
     ((if stage = ''takeScreenshot'' then 1 else 0) + (if stage = ''uploadToGitHub'' then 1 else 0))
     (processWorkflow_capture cfg w name c f i)"
proof -
  let ?cap = "if stage = ''takeScreenshot'' then 1 else (0::nat)"
  let ?up = "if stage = ''uploadToGitHub'' then 1 else (0::nat)"
  have tail: "emits_at_most (is_entry_of stage) ?up
     (let localDir = path_join w [screenshotsDir cfg, c] in
      await (fs_existsSync w localDir) (\<lambda>present.
      await (if \<not> present then fs_mkdirSync w localDir else pure ()) (\<lambda>_.
      let localPath = path_join w [localDir, f] in
      await (fs_writeFileSync w localPath screenshot) (\<lambda>_.
      await (uploadToGitHub cfg w c f screenshot) (\<lambda>url.
      pure \<lparr>r_workflow = name, r_category = c, r_filename = f, r_url = url\<rparr>)))))"
    for screenshot
    unfolding Let_def
    by (intro emits_at_most_none emits_only_fs emits_only_if emits_only_pure
          uploadToGitHub_entries
          emits_at_most_await [where a = ?up and b = 0 and n = ?up]
          emits_at_most_await [where a = 0 and b = ?up and n = ?up])
       simp_all
  have sleeping: "emits_at_most (is_entry_of stage) 0 (sleep (delayAfterImport cfg))"
    by (intro emits_at_most_none emits_only_sleep) simp
  have capture: "emits_at_most (is_entry_of stage) (?cap + ?up)
     (await (takeScreenshot cfg w i) (\<lambda>screenshot.
      let localDir = path_join w [screenshotsDir cfg, c] in
      await (fs_existsSync w localDir) (\<lambda>present.
      await (if \<not> present then fs_mkdirSync w localDir else pure ()) (\<lambda>_.
      let localPath = path_join w [localDir, f] in
      await (fs_writeFileSync w localPath screenshot) (\<lambda>_.
      await (uploadToGitHub cfg w c f screenshot) (\<lambda>url.
      pure \<lparr>r_workflow = name, r_category = c, r_filename = f, r_url = url\<rparr>))))))"
    by (rule emits_at_most_await [where a = ?cap and b = ?up])
       (rule takeScreenshot_entries, rule tail, simp)
  show ?thesis
    unfolding processWorkflow_capture_def
    by (rule emits_at_most_await [where a = 0 and b = "?cap + ?up"])
       (rule sleeping, rule capture, simp)
qed

lemma processWorkflow_try_entries:
  "emits_at_most (is_entry_of stage) 1 (processWorkflow_try cfg w p name c f)"
proof -
  let ?imp = "if stage = ''importWorkflow'' then 1 else (0::nat)"
  let ?cap = "(if stage = ''takeScreenshot'' then 1 else 0)
                + (if stage = ''uploadToGitHub'' then 1 else (0::nat))"
  have after: "emits_at_most (is_entry_of stage) ?cap
     (case imported of
        Inl error \<Rightarrow> pure (JNull, Inl error)
      | Inr workflowId \<Rightarrow>
          await (attempt (processWorkflow_capture cfg w name c f workflowId)) (\<lambda>captured.
          pure (workflowId, captured)))" for imported
  proof (cases imported)
    case (Inl e)
    have "emits_at_most (is_entry_of stage) ?cap (pure (JNull, Inl e))"
      by (rule emits_at_most_mono [OF emits_at_most_none]) (rule emits_only_pure, simp)
    with Inl show ?thesis by simp
  next
    case (Inr i)
    have "emits_at_most (is_entry_of stage) ?cap
            (await (attempt (processWorkflow_capture cfg w name c f i)) (\<lambda>captured.
             pure (i, captured)))"
      by (rule emits_at_most_await [where a = ?cap and b = 0])
         (rule emits_at_most_attempt, rule processWorkflow_capture_entries,
          rule emits_at_most_none, rule emits_only_pure, simp)
    with Inr show ?thesis by simp
  qed
  have "?imp + ?cap \<le> 1" by simp
  then show ?thesis
    unfolding processWorkflow_try_def
    by (intro emits_at_most_await [where a = ?imp and b = ?cap] emits_at_most_attempt
          processWorkflow_import_entries after)
qed

lemma processWorkflow_entries:
  "emits_at_most (is_entry_of stage) 1 (processWorkflow cfg w st p)"
proof -
  let ?P = "\<lambda>ev. \<not> is_entry_of stage ev"
  have ex: "emits_at_most (is_entry_of stage) 0 (screenshotExists cfg w c f)" for c f
    by (intro emits_at_most_none emits_only_screenshotExists) simp_all
  have "emits_only ?P (deleteWorkflow cfg w i)" for i
    unfolding deleteWorkflow_def by auto
  then have cont: "emits_only ?P
     (case x of (workflowId, tried) \<Rightarrow>
        let (result, st1) =
              (case tried of
                 Inr r \<Rightarrow> (Some r, st\<lparr>succeeded := succeeded st + 1\<rparr>)
               | Inl error \<Rightarrow>
                   (None, st\<lparr>failed := failed st + 1,
                              errors := errors st @ [(basename p [], message error)]\<rparr>))
        in
        await (if truthy workflowId then deleteWorkflow cfg w workflowId else pure ()) (\<lambda>_.
        pure (result, st1\<lparr>processed := processed st1 + 1\<rparr>)))" for x
    by (intro emits_only_await emits_only_if emits_only_pure emits_only_case_prod
          emits_only_Let)
  have rest: "emits_at_most (is_entry_of stage) 1
     (if present then pure (None, st\<lparr>skipped := skipped st + 1\<rparr>)
      else
        await (processWorkflow_try cfg w p (basename p []) (getCategory p)
                 (getScreenshotFilename p))
          (\<lambda>(workflowId, tried).
        let (result, st1) =
              (case tried of
                 Inr r \<Rightarrow> (Some r, st\<lparr>succeeded := succeeded st + 1\<rparr>)
               | Inl error \<Rightarrow>
                   (None, st\<lparr>failed := failed st + 1,
                              errors := errors st @ [(basename p [], message error)]\<rparr>))
        in
        await (if truthy workflowId then deleteWorkflow cfg w workflowId else pure ()) (\<lambda>_.
        pure (result, st1\<lparr>processed := processed st1 + 1\<rparr>))))" for present
  proof (cases present)
    case True
    have "emits_at_most (is_entry_of stage) 1 (pure (None, st\<lparr>skipped := skipped st + 1\<rparr>))"
      by (rule emits_at_most_mono [OF emits_at_most_none]) (rule emits_only_pure, simp)
    with True show ?thesis by simp
  next
    case False
    have "emits_at_most (is_entry_of stage) 1
       (await (processWorkflow_try cfg w p (basename p []) (getCategory p)
                 (getScreenshotFilename p))
          (\<lambda>(workflowId, tried).
        let (result, st1) =
              (case tried of
                 Inr r \<Rightarrow> (Some r, st\<lparr>succeeded := succeeded st + 1\<rparr>)
               | Inl error \<Rightarrow>
                   (None, st\<lparr>failed := failed st + 1,
                              errors := errors st @ [(basename p [], message error)]\<rparr>))
        in
        await (if truthy workflowId then deleteWorkflow cfg w workflowId else pure ()) (\<lambda>_.
        pure (result, st1\<lparr>processed := processed st1 + 1\<rparr>))))"
      by (rule emits_at_most_await [where a = 1 and b = 0])
         (rule processWorkflow_try_entries, rule emits_at_most_none, rule cont, simp)
    with False show ?thesis by simp
  qed
  have body: "emits_at_most (is_entry_of stage) 1
     (await (screenshotExists cfg w (getCategory p) (getScreenshotFilename p)) (\<lambda>present.
      if present then pure (None, st\<lparr>skipped := skipped st + 1\<rparr>)
      else
        await (processWorkflow_try cfg w p (basename p []) (getCategory p)
                 (getScreenshotFilename p))
          (\<lambda>(workflowId, tried).
        let (result, st1) =
              (case tried of
                 Inr r \<Rightarrow> (Some r, st\<lparr>succeeded := succeeded st + 1\<rparr>)
               | Inl error \<Rightarrow>
                   (None, st\<lparr>failed := failed st + 1,
                              errors := errors st @ [(basename p [], message error)]\<rparr>))
        in
        await (if truthy workflowId then deleteWorkflow cfg w workflowId else pure ()) (\<lambda>_.
        pure (result, st1\<lparr>processed := processed st1 + 1\<rparr>)))))"
    by (rule emits_at_most_await [where a = 0 and b = 1]) (rule ex, rule rest, simp)
  have entry: "emits_at_most (is_entry_of stage) 0 (emit (Enter_processWorkflow p))"
    by (rule emits_at_most_none) (rule emits_only_emit, simp)
  have "emits_at_most (is_entry_of stage) 1
     (await (emit (Enter_processWorkflow p)) (\<lambda>_.
      await (screenshotExists cfg w (getCategory p) (getScreenshotFilename p)) (\<lambda>present.
      if present then pure (None, st\<lparr>skipped := skipped st + 1\<rparr>)
      else
        await (processWorkflow_try cfg w p (basename p []) (getCategory p)
                 (getScreenshotFilename p))
          (\<lambda>(workflowId, tried).
        let (result, st1) =
              (case tried of
                 Inr r \<Rightarrow> (Some r, st\<lparr>succeeded := succeeded st + 1\<rparr>)
               | Inl error \<Rightarrow>
                   (None, st\<lparr>failed := failed st + 1,
                              errors := errors st @ [(basename p [], message error)]\<rparr>))
        in
        await (if truthy workflowId then deleteWorkflow cfg w workflowId else pure ()) (\<lambda>_.
        pure (result, st1\<lparr>processed := processed st1 + 1\<rparr>))))))"
    by (rule emits_at_most_await [where a = 0 and b = 1]) (rule entry, rule body, simp)
  then show ?thesis
    by (simp add: processWorkflow_def Let_def)
qed

lemma main_loop_entries:
  "length (filter (is_entry_of stage) (snd (main_loop cfg w st results files tr)))
     \<le> length files"
proof (induction files arbitrary: st results tr)
  case Nil
  show ?case by (simp add: step_simps)
next
  case (Cons p ps)
  obtain result st1 where pw: "fst (processWorkflow cfg w st p tr) = Inr (result, st1)"
    using processWorkflow_returns by blast
  have one: "length (filter (is_entry_of stage) (snd (processWorkflow cfg w st p tr))) \<le> 1"
    using processWorkflow_entries by (rule emits_at_mostD)
  show ?case
  proof (cases "ps = []")
    case True
    then show ?thesis
      using pw one by (simp add: await_Inr step_simps)
  next
    case False
    then show ?thesis
      using pw one
        Cons.IH [of st1 "case result of None \<Rightarrow> results | Some r \<Rightarrow> results @ [r]"
                   "tr @ snd (processWorkflow cfg w st p tr) @ [Sleep (delayBetweenWorkflows cfg)]"]
      by (simp add: await_Inr step_simps)
  qed
qed

lemma processWorkflow_try_failure:
  assumes "fst (processWorkflow_import cfg w p tr) = Inl error
           \<or> (\<exists>workflowId. fst (processWorkflow_import cfg w p tr) = Inr workflowId
                 \<and> fst (processWorkflow_capture cfg w name category filename workflowId
                          (tr @ snd (processWorkflow_import cfg w p tr))) = Inl error)"
  shows "\<exists>workflowId. fst (processWorkflow_try cfg w p name category filename tr) =
           Inr (workflowId, Inl error)"
  using assms by (auto simp: processWorkflow_try_def step_simps)

lemma processWorkflow_failure:
  assumes "fst (screenshotExists cfg w (getCategory p) (getScreenshotFilename p)
                  (tr @ [Enter_processWorkflow p])) = Inr False"
    and "fst (processWorkflow_try cfg w p (basename p []) (getCategory p)
                (getScreenshotFilename p)
                (tr @ Enter_processWorkflow p
                   # snd (screenshotExists cfg w (getCategory p) (getScreenshotFilename p)
                            (tr @ [Enter_processWorkflow p])))) = Inr (workflowId, Inl error)"
  shows "fst (processWorkflow cfg w st p tr) =
           Inr (None, st\<lparr>failed := failed st + 1,
                          errors := errors st @ [(basename p [], message error)],
                          processed := processed st + 1\<rparr>)"
proof -
  let ?ex = "screenshotExists cfg w (getCategory p) (getScreenshotFilename p)"
  let ?block = "processWorkflow_try cfg w p (basename p []) (getCategory p)
                (getScreenshotFilename p)"
  note first = await_Inr [where m = ?ex and tr = "tr @ [Enter_processWorkflow p]"
                            and x = False, OF assms(1)]
  note second = await_Inr [where m = ?block
                             and tr = "tr @ Enter_processWorkflow p
                                         # snd (?ex (tr @ [Enter_processWorkflow p]))"
                             and x = "(workflowId, Inl error)", OF assms(2)]
  show ?thesis
    by (simp add: processWorkflow_def Let_def first second step_simps await_Inr
          deleteWorkflow_apply)
qed

text \<open>What \<^verbatim>\<open>processWorkflow\<close> does to the counters, whatever happens to the item.\<close>

lemma processWorkflow_state:
  assumes "fst (processWorkflow cfg w st p tr) = Inr (result, st1)"
  shows "st1 = st\<lparr>skipped := skipped st + 1\<rparr>
       \<or> st1 = st\<lparr>succeeded := succeeded st + 1, processed := processed st + 1\<rparr>
       \<or> (\<exists>msg. st1 = st\<lparr>failed := failed st + 1,
                           errors := errors st @ [(basename p [], msg)],
                           processed := processed st + 1\<rparr>)"
proof -
  obtain b where b: "fst (screenshotExists cfg w (getCategory p) (getScreenshotFilename p)
                       (tr @ [Enter_processWorkflow p])) = Inr b"
    using screenshotExists_returns by blast
  let ?tr2 = "tr @ Enter_processWorkflow p
                # snd (screenshotExists cfg w (getCategory p) (getScreenshotFilename p)
                        (tr @ [Enter_processWorkflow p]))"
  obtain workflowId tried where t:
    "fst (processWorkflow_try cfg w p (basename p []) (getCategory p) (getScreenshotFilename p)
            ?tr2) = Inr (workflowId, tried)"
    using processWorkflow_try_returns by blast
  have "fst (processWorkflow cfg w st p tr) =
          Inr (if b then (None, st\<lparr>skipped := skipped st + 1\<rparr>)
               else case tried of
                      Inr r \<Rightarrow> (Some r, st\<lparr>succeeded := succeeded st + 1,
                                             processed := processed st + 1\<rparr>)
                    | Inl error \<Rightarrow>
                        (None, st\<lparr>failed := failed st + 1,
                                   errors := errors st @ [(basename p [], message error)],
                                   processed := processed st + 1\<rparr>))"
    using b t
    by (cases tried)
       (simp_all add: processWorkflow_def Let_def await_Inr deleteWorkflow_apply step_simps)
  with assms show ?thesis
    by (auto split: if_splits sum.splits)
qed

text \<open>One turn of the loop: the next item is processed from the state the item left.\<close>

lemma main_loop_Cons:
  assumes "fst (processWorkflow cfg w st p tr) = Inr (result, st1)"
  shows "main_loop cfg w st results (p # ps) tr =
           (fst (main_loop cfg w st1
                   (case result of None \<Rightarrow> results | Some r \<Rightarrow> results @ [r]) ps
                   (tr @ snd (processWorkflow cfg w st p tr)
                       @ (if ps = [] then [] else [Sleep (delayBetweenWorkflows cfg)]))),
            snd (processWorkflow cfg w st p tr)
              @ (if ps = [] then [] else [Sleep (delayBetweenWorkflows cfg)])
              @ snd (main_loop cfg w st1
                       (case result of None \<Rightarrow> results | Some r \<Rightarrow> results @ [r]) ps
                       (tr @ snd (processWorkflow cfg w st p tr)
                           @ (if ps = [] then [] else [Sleep (delayBetweenWorkflows cfg)]))))"
  using assms by (cases "ps = []") (simp_all add: await_Inr step_simps)

text \<open>
  The accounts of the loop: every item is counted once, as succeeded, failed or
  skipped; \<^verbatim>\<open>errors\<close> only grows, by one pair for each failure, and the pairs name items
  of the run, in discovery order.
\<close>

lemma main_loop_accounts:
  assumes "fst (main_loop cfg w st results files tr) = Inr (st', results')"
  shows "succeeded st' + failed st' + skipped st'
           = succeeded st + failed st + skipped st + length files
       \<and> processed st' + skipped st' = processed st + skipped st + length files
       \<and> (\<exists>new. errors st' = errors st @ new
                \<and> failed st' = failed st + length new
                \<and> subseq (map fst new) (map (\<lambda>p. basename p []) files))"
  using assms
proof (induction files arbitrary: st results tr)
  case Nil
  then show ?case by (simp add: step_simps)
next
  case (Cons p ps)
  obtain result st1 where pw: "fst (processWorkflow cfg w st p tr) = Inr (result, st1)"
    using processWorkflow_returns by blast
  let ?results = "case result of None \<Rightarrow> results | Some r \<Rightarrow> results @ [r]"
  let ?tr = "tr @ snd (processWorkflow cfg w st p tr)
                @ (if ps = [] then [] else [Sleep (delayBetweenWorkflows cfg)])"
  have "fst (main_loop cfg w st1 ?results ps ?tr) = Inr (st', results')"
    using Cons.prems by (simp add: main_loop_Cons [OF pw] del: main_loop.simps(2))
  from Cons.IH [OF this] obtain new where
    sum: "succeeded st' + failed st' + skipped st'
            = succeeded st1 + failed st1 + skipped st1 + length ps"
    and counted: "processed st' + skipped st' = processed st1 + skipped st1 + length ps"
    and new: "errors st' = errors st1 @ new" "failed st' = failed st1 + length new"
      "subseq (map fst new) (map (\<lambda>p. basename p []) ps)"
    by blast
  from processWorkflow_state [OF pw]
  consider "st1 = st\<lparr>skipped := skipped st + 1\<rparr>"
    | "st1 = st\<lparr>succeeded := succeeded st + 1, processed := processed st + 1\<rparr>"
    | msg where "st1 = st\<lparr>failed := failed st + 1,
                            errors := errors st @ [(basename p [], msg)],
                            processed := processed st + 1\<rparr>"
    by blast
  then show ?case
  proof cases
    case 1
    have "subseq (map fst new) (map (\<lambda>p. basename p []) (p # ps))"
      using new(3) by (simp add: list_emb_Cons)
    with 1 sum counted new(1,2) show ?thesis by auto
  next
    case 2
    have "subseq (map fst new) (map (\<lambda>p. basename p []) (p # ps))"
      using new(3) by (simp add: list_emb_Cons)
    with 2 sum counted new(1,2) show ?thesis by auto
  next
    case 3
    have "subseq (map fst ((basename p [], msg) # new)) (map (\<lambda>p. basename p []) (p # ps))"
      using new(3) by simp
    moreover have "errors st' = errors st @ (basename p [], msg) # new"
      using 3 new(1) by simp
    moreover have "failed st' = failed st + length ((basename p [], msg) # new)"
      using 3 new(2) by simp
    ultimately show ?thesis
      using 3 sum counted by (intro conjI exI [of _ "(basename p [], msg) # new"]) simp_all
  qed
qed

text \<open>
  The run over \<^verbatim>\<open>before @ p # after\<close> reaches \<^verbatim>\<open>p\<close> in the state the run over
  \<^verbatim>\<open>before\<close> ends in, after the events of that run and the pause that follows it.
\<close>

lemma main_loop_append:
  assumes "fst (main_loop cfg w st results before tr) = Inr (st_b, results_b)"
  shows "fst (main_loop cfg w st results (before @ p # after) tr) =
           fst (main_loop cfg w st_b results_b (p # after)
                  (tr @ snd (main_loop cfg w st results before tr)
                      @ (if before = [] then [] else [Sleep (delayBetweenWorkflows cfg)])))"
  using assms
proof (induction before arbitrary: st results tr)
  case Nil
  then show ?case by (simp add: step_simps)
next
  case (Cons b bs)
  obtain result st1 where pw: "fst (processWorkflow cfg w st b tr) = Inr (result, st1)"
    using processWorkflow_returns by blast
  let ?results = "case result of None \<Rightarrow> results | Some r \<Rightarrow> results @ [r]"
  let ?pause = "\<lambda>rest. if rest = [] then [] else [Sleep (delayBetweenWorkflows cfg)]"
  let ?evs = "snd (processWorkflow cfg w st b tr)"
  show ?case
  proof (cases "bs = []")
    case True
    then have "st_b = st1" "results_b = ?results"
      using Cons.prems by (simp_all add: main_loop_Cons [OF pw] step_simps del: main_loop.simps(2))
    with True show ?thesis
      by (simp add: main_loop_Cons [OF pw] step_simps del: main_loop.simps(2))
  next
    case False
    let ?tr = "tr @ ?evs @ [Sleep (delayBetweenWorkflows cfg)]"
    have sub: "fst (main_loop cfg w st1 ?results bs ?tr) = Inr (st_b, results_b)"
      using Cons.prems False by (simp add: main_loop_Cons [OF pw] del: main_loop.simps(2))
    have "fst (main_loop cfg w st results ((b # bs) @ p # after) tr)
            = fst (main_loop cfg w st1 ?results (bs @ p # after) ?tr)"
      by (simp add: main_loop_Cons [OF pw] del: main_loop.simps(2))
    also have "\<dots> = fst (main_loop cfg w st_b results_b (p # after)
                          (?tr @ snd (main_loop cfg w st1 ?results bs ?tr)
                             @ [Sleep (delayBetweenWorkflows cfg)]))"
      using Cons.IH [OF sub] False by simp
    also have "?tr @ snd (main_loop cfg w st1 ?results bs ?tr)
                 @ [Sleep (delayBetweenWorkflows cfg)]
               = tr @ snd (main_loop cfg w st results (b # bs) tr)
                   @ (if b # bs = [] then [] else [Sleep (delayBetweenWorkflows cfg)])"
      using False by (simp add: main_loop_Cons [OF pw] del: main_loop.simps(2))
    finally show ?thesis .
  qed
qed

text \<open>
  A failure of the item \<^verbatim>\<open>p\<close> is still in the accounts at the end of the run: the pair
  of \<^verbatim>\<open>p\<close> follows the errors recorded before \<^verbatim>\<open>p\<close>, and only the failures of the
  items after \<^verbatim>\<open>p\<close> follow it.
\<close>

lemma main_loop_failure_kept:
  assumes run: "fst (main_loop cfg w st results (before @ p # after) tr) = Inr (st', results')"
    and reached: "fst (main_loop cfg w st results before tr) = Inr (st_b, results_b)"
    and failure: "fst (processWorkflow cfg w st_b p
                    (tr @ snd (main_loop cfg w st results before tr)
                        @ (if before = [] then [] else [Sleep (delayBetweenWorkflows cfg)]))) =
                  Inr (None, st_b\<lparr>failed := failed st_b + 1,
                                   errors := errors st_b @ [(basename p [], msg)],
                                   processed := processed st_b + 1\<rparr>)"
  shows "\<exists>later. errors st' = errors st_b @ (basename p [], msg) # later
                \<and> failed st' = failed st_b + 1 + length later
                \<and> subseq (map fst later) (map (\<lambda>p. basename p []) after)"
proof -
  let ?tr = "tr @ snd (main_loop cfg w st results before tr)
                @ (if before = [] then [] else [Sleep (delayBetweenWorkflows cfg)])"
  let ?st = "st_b\<lparr>failed := failed st_b + 1,
                   errors := errors st_b @ [(basename p [], msg)],
                   processed := processed st_b + 1\<rparr>"
  have "fst (main_loop cfg w st_b results_b (p # after) ?tr) = Inr (st', results')"
    using run main_loop_append [OF reached] by simp
  then have "fst (main_loop cfg w ?st results_b after
                    (?tr @ snd (processWorkflow cfg w st_b p ?tr)
                         @ (if after = [] then [] else [Sleep (delayBetweenWorkflows cfg)])))
               = Inr (st', results')"
    by (simp add: main_loop_Cons [OF failure] del: main_loop.simps(2))
  from main_loop_accounts [OF this] show ?thesis
    by auto
qed

lemma processWorkflow_records_failure:
  assumes "fst (screenshotExists cfg w (getCategory p) (getScreenshotFilename p)
                  (tr0 @ [Enter_processWorkflow p])) = Inr False"
    and "fst (processWorkflow_import cfg w p
                (tr0 @ [Enter_processWorkflow p]
                   @ snd (screenshotExists cfg w (getCategory p) (getScreenshotFilename p)
                            (tr0 @ [Enter_processWorkflow p])))) = Inl error
         \<or> (\<exists>workflowId.
               fst (processWorkflow_import cfg w p
                      (tr0 @ [Enter_processWorkflow p]
                         @ snd (screenshotExists cfg w (getCategory p) (getScreenshotFilename p)
                                  (tr0 @ [Enter_processWorkflow p])))) = Inr workflowId
               \<and> fst (processWorkflow_capture cfg w (basename p []) (getCategory p)
                        (getScreenshotFilename p) workflowId
                        ((tr0 @ [Enter_processWorkflow p]
                            @ snd (screenshotExists cfg w (getCategory p)
                                     (getScreenshotFilename p)
                                     (tr0 @ [Enter_processWorkflow p])))
                           @ snd (processWorkflow_import cfg w p
                                    (tr0 @ [Enter_processWorkflow p]
                                       @ snd (screenshotExists cfg w (getCategory p)
                                                (getScreenshotFilename p)
                                                (tr0 @ [Enter_processWorkflow p])))))) = Inl error)"
  shows "fst (processWorkflow cfg w st0 p tr0) =
           Inr (None, st0\<lparr>failed := failed st0 + 1,
                           errors := errors st0 @ [(basename p [], message error)],
                           processed := processed st0 + 1\<rparr>)"
proof -
  from processWorkflow_try_failure [OF assms(2)]
  obtain workflowId where
    "fst (processWorkflow_try cfg w p (basename p []) (getCategory p) (getScreenshotFilename p)
            (tr0 @ [Enter_processWorkflow p]
               @ snd (screenshotExists cfg w (getCategory p) (getScreenshotFilename p)
                        (tr0 @ [Enter_processWorkflow p])))) = Inr (workflowId, Inl error)"
    by blast
  with assms(1) show ?thesis
    by (intro processWorkflow_failure) simp_all
qed

text \<open>
  Claim C6, over a run of the loop of \<^verbatim>\<open>main\<close> on the items \<^verbatim>\<open>files\<close>, from any state
  and after any history.

  \<^item> The loop never throws: it returns the final state and the results.
  \<^item> \<^verbatim>\<open>processWorkflow\<close> is entered once for every item, in discovery order, whatever
    happens to the items before it, and each stage (\<^verbatim>\<open>importWorkflow\<close>,
    \<^verbatim>\<open>takeScreenshot\<close>, \<^verbatim>\<open>uploadToGitHub\<close>) is entered at most once for each item of
    the run, so no item is left out or tried again.
  \<^item> In the final state every item of the run is counted once: \<^verbatim>\<open>succeeded\<close>,
    \<^verbatim>\<open>failed\<close> and \<^verbatim>\<open>skipped\<close> together grow by the number of items, and so do
    \<^verbatim>\<open>processed\<close> and \<^verbatim>\<open>skipped\<close>.
  \<^item> \<^verbatim>\<open>errors\<close> only grows, by exactly one pair for each item counted as failed, and
    the pairs name items of the run, in discovery order.
  \<^item> Let the run reach the item \<^verbatim>\<open>p\<close> (after the items \<^verbatim>\<open>before\<close>, in the state
    \<^verbatim>\<open>st_b\<close>), let the existence check say that the screenshot is missing, and let the
    import (reading and parsing the file, \<^verbatim>\<open>importWorkflow\<close>) or what follows it (the
    capture, the local copy, the upload) throw an error. Then the run goes on, and in its
    final state the pair of the file name of \<^verbatim>\<open>p\<close> and the message of the error comes
    right after the errors of \<^verbatim>\<open>st_b\<close>, followed only by the failures of the items
    after \<^verbatim>\<open>p\<close>, and \<^verbatim>\<open>failed\<close> counts it.
  \<^item> For \<^verbatim>\<open>processWorkflow\<close> alone, from any state: in that case it returns \<^verbatim>\<open>null\<close>
    with \<^verbatim>\<open>failed\<close> and \<^verbatim>\<open>processed\<close> one higher and the pair appended to
    \<^verbatim>\<open>errors\<close>.
\<close>

theorem item_errors_isolated:
  "\<exists>st' results'.
     fst (main_loop cfg w st results files tr) = Inr (st', results')
   \<and> processed_paths (snd (main_loop cfg w st results files tr)) = files
   \<and> length (filter (is_entry_of stage) (snd (main_loop cfg w st results files tr)))
       \<le> length files
   \<and> succeeded st' + failed st' + skipped st'
       = succeeded st + failed st + skipped st + length files
   \<and> processed st' + skipped st' = processed st + skipped st + length files
   \<and> (\<exists>new. errors st' = errors st @ new
             \<and> failed st' = failed st + length new
             \<and> subseq (map fst new) (map (\<lambda>p. basename p []) files))
   \<and> (\<forall>before p after st_b results_b error.
         (let tr0 = tr @ snd (main_loop cfg w st results before tr)
                        @ (if before = [] then [] else [Sleep (delayBetweenWorkflows cfg)]);
              name = basename p [];
              category = getCategory p;
              filename = getScreenshotFilename p;
              tr1 = tr0 @ [Enter_processWorkflow p];
              tr2 = tr1 @ snd (screenshotExists cfg w category filename tr1)
          in files = before @ p # after
             \<and> fst (main_loop cfg w st results before tr) = Inr (st_b, results_b)
             \<and> fst (screenshotExists cfg w category filename tr1) = Inr False
             \<and> (fst (processWorkflow_import cfg w p tr2) = Inl error
                  \<or> (\<exists>workflowId.
                        fst (processWorkflow_import cfg w p tr2) = Inr workflowId
                        \<and> fst (processWorkflow_capture cfg w name category filename workflowId
                                 (tr2 @ snd (processWorkflow_import cfg w p tr2))) = Inl error)))
         \<longrightarrow> (\<exists>later. errors st' = errors st_b @ (basename p [], message error) # later
                   \<and> failed st' = failed st_b + 1 + length later
                   \<and> subseq (map fst later) (map (\<lambda>p. basename p []) after)))
   \<and> (\<forall>p st0 tr0 error.
         (let name = basename p [];
              category = getCategory p;
              filename = getScreenshotFilename p;
              tr1 = tr0 @ [Enter_processWorkflow p];
              tr2 = tr1 @ snd (screenshotExists cfg w category filename tr1)
          in fst (screenshotExists cfg w category filename tr1) = Inr False
             \<and> (fst (processWorkflow_import cfg w p tr2) = Inl error
                  \<or> (\<exists>workflowId.
                        fst (processWorkflow_import cfg w p tr2) = Inr workflowId
                        \<and> fst (processWorkflow_capture cfg w name category filename workflowId
                                 (tr2 @ snd (processWorkflow_import cfg w p tr2))) = Inl error)))
         \<longrightarrow> fst (processWorkflow cfg w st0 p tr0) =
               Inr (None, st0\<lparr>failed := failed st0 + 1,
                               errors := errors st0 @ [(basename p [], message error)],
                               processed := processed st0 + 1\<rparr>))"
proof -
  obtain st' results' where run: "fst (main_loop cfg w st results files tr) = Inr (st', results')"
    using main_loop_returns by blast
  have paths: "processed_paths (snd (main_loop cfg w st results files tr)) = files"
    by (rule processed_paths_main_loop)
  have entries: "length (filter (is_entry_of stage) (snd (main_loop cfg w st results files tr)))
       \<le> length files"
    by (rule main_loop_entries)
  have sum: "succeeded st' + failed st' + skipped st'
       = succeeded st + failed st + skipped st + length files"
    using main_loop_accounts [OF run] by blast
  have counted: "processed st' + skipped st' = processed st + skipped st + length files"
    using main_loop_accounts [OF run] by blast
  have errs: "(\<exists>new. errors st' = errors st @ new
             \<and> failed st' = failed st + length new
             \<and> subseq (map fst new) (map (\<lambda>p. basename p []) files))"
    using main_loop_accounts [OF run] by blast
  have kept: "(\<forall>before p after st_b results_b error.
         (let tr0 = tr @ snd (main_loop cfg w st results before tr)
                        @ (if before = [] then [] else [Sleep (delayBetweenWorkflows cfg)]);
              name = basename p [];
              category = getCategory p;
              filename = getScreenshotFilename p;
              tr1 = tr0 @ [Enter_processWorkflow p];
              tr2 = tr1 @ snd (screenshotExists cfg w category filename tr1)
          in files = before @ p # after
             \<and> fst (main_loop cfg w st results before tr) = Inr (st_b, results_b)
             \<and> fst (screenshotExists cfg w category filename tr1) = Inr False
             \<and> (fst (processWorkflow_import cfg w p tr2) = Inl error
                  \<or> (\<exists>workflowId.
                        fst (processWorkflow_import cfg w p tr2) = Inr workflowId
                        \<and> fst (processWorkflow_capture cfg w name category filename workflowId
                                 (tr2 @ snd (processWorkflow_import cfg w p tr2))) = Inl error)))
         \<longrightarrow> (\<exists>later. errors st' = errors st_b @ (basename p [], message error) # later
                   \<and> failed st' = failed st_b + 1 + length later
                   \<and> subseq (map fst later) (map (\<lambda>p. basename p []) after)))"
  proof (intro allI impI)
    fix before p after st_b results_b error
    let ?tr0 = "tr @ snd (main_loop cfg w st results before tr)
                   @ (if before = [] then [] else [Sleep (delayBetweenWorkflows cfg)])"
    let ?tr1 = "?tr0 @ [Enter_processWorkflow p]"
    let ?ex = "screenshotExists cfg w (getCategory p) (getScreenshotFilename p) ?tr1"
    let ?tr2 = "?tr1 @ snd ?ex"
    assume "let tr0 = tr @ snd (main_loop cfg w st results before tr)
                        @ (if before = [] then [] else [Sleep (delayBetweenWorkflows cfg)]);
              name = basename p [];
              category = getCategory p;
              filename = getScreenshotFilename p;
              tr1 = tr0 @ [Enter_processWorkflow p];
              tr2 = tr1 @ snd (screenshotExists cfg w category filename tr1)
          in files = before @ p # after
             \<and> fst (main_loop cfg w st results before tr) = Inr (st_b, results_b)
             \<and> fst (screenshotExists cfg w category filename tr1) = Inr False
             \<and> (fst (processWorkflow_import cfg w p tr2) = Inl error
                  \<or> (\<exists>workflowId.
                        fst (processWorkflow_import cfg w p tr2) = Inr workflowId
                        \<and> fst (processWorkflow_capture cfg w name category filename workflowId
                                 (tr2 @ snd (processWorkflow_import cfg w p tr2))) = Inl error))"
    then have split: "files = before @ p # after"
      and reached: "fst (main_loop cfg w st results before tr) = Inr (st_b, results_b)"
      and missing: "fst ?ex = Inr False"
      and thrown: "fst (processWorkflow_import cfg w p ?tr2) = Inl error
         \<or> (\<exists>workflowId. fst (processWorkflow_import cfg w p ?tr2) = Inr workflowId
               \<and> fst (processWorkflow_capture cfg w (basename p []) (getCategory p)
                        (getScreenshotFilename p) workflowId
                        (?tr2 @ snd (processWorkflow_import cfg w p ?tr2))) = Inl error)"
      unfolding Let_def by blast+
    have failure: "fst (processWorkflow cfg w st_b p ?tr0) =
        Inr (None, st_b\<lparr>failed := failed st_b + 1,
                         errors := errors st_b @ [(basename p [], message error)],
                         processed := processed st_b + 1\<rparr>)"
      using missing thrown by (intro processWorkflow_records_failure) simp_all
    show "\<exists>later. errors st' = errors st_b @ (basename p [], message error) # later
                   \<and> failed st' = failed st_b + 1 + length later
                   \<and> subseq (map fst later) (map (\<lambda>p. basename p []) after)"
      using run reached failure unfolding split by (rule main_loop_failure_kept)
  qed
  have item: "(\<forall>p st0 tr0 error.
         (let name = basename p [];
              category = getCategory p;
              filename = getScreenshotFilename p;
              tr1 = tr0 @ [Enter_processWorkflow p];
              tr2 = tr1 @ snd (screenshotExists cfg w category filename tr1)
          in fst (screenshotExists cfg w category filename tr1) = Inr False
             \<and> (fst (processWorkflow_import cfg w p tr2) = Inl error
                  \<or> (\<exists>workflowId.
                        fst (processWorkflow_import cfg w p tr2) = Inr workflowId
                        \<and> fst (processWorkflow_capture cfg w name category filename workflowId
                                 (tr2 @ snd (processWorkflow_import cfg w p tr2))) = Inl error)))
         \<longrightarrow> fst (processWorkflow cfg w st0 p tr0) =
               Inr (None, st0\<lparr>failed := failed st0 + 1,
                               errors := errors st0 @ [(basename p [], message error)],
                               processed := processed st0 + 1\<rparr>))"
  proof (intro allI impI)
    fix p st0 tr0 error
    let ?tr1 = "tr0 @ [Enter_processWorkflow p]"
    let ?ex = "screenshotExists cfg w (getCategory p) (getScreenshotFilename p) ?tr1"
    let ?tr2 = "?tr1 @ snd ?ex"
    assume "let name = basename p [];
              category = getCategory p;
              filename = getScreenshotFilename p;
              tr1 = tr0 @ [Enter_processWorkflow p];
              tr2 = tr1 @ snd (screenshotExists cfg w category filename tr1)
          in fst (screenshotExists cfg w category filename tr1) = Inr False
             \<and> (fst (processWorkflow_import cfg w p tr2) = Inl error
                  \<or> (\<exists>workflowId.
                        fst (processWorkflow_import cfg w p tr2) = Inr workflowId
                        \<and> fst (processWorkflow_capture cfg w name category filename workflowId
                                 (tr2 @ snd (processWorkflow_import cfg w p tr2))) = Inl error))"
    then have missing: "fst ?ex = Inr False"
      and thrown: "fst (processWorkflow_import cfg w p ?tr2) = Inl error
         \<or> (\<exists>workflowId. fst (processWorkflow_import cfg w p ?tr2) = Inr workflowId
               \<and> fst (processWorkflow_capture cfg w (basename p []) (getCategory p)
                        (getScreenshotFilename p) workflowId
                        (?tr2 @ snd (processWorkflow_import cfg w p ?tr2))) = Inl error)"
      unfolding Let_def by blast+
    show "fst (processWorkflow cfg w st0 p tr0) =
               Inr (None, st0\<lparr>failed := failed st0 + 1,
                               errors := errors st0 @ [(basename p [], message error)],
                               processed := processed st0 + 1\<rparr>)"
      using missing thrown by (intro processWorkflow_records_failure) simp_all
  qed
  show ?thesis
    by (intro exI [of _ st'] exI [of _ results'] conjI run paths entries sum counted errs
          kept item)
qed

text \<open>
  Witness for C6: a run over two workflows, both rejected by the engine with status 400.
  The first failure does not stop the run: the second item is reached in the state the
  first one left, it fails too, and the final state counts two failures and holds the
  two pairs, in discovery order.
\<close>

theorem item_errors_isolated_witness:
  "fst (main_loop example_config world_rejecting initial_state []
          [''templates/devops/My Flow.json''] []) =
     Inr (\<lparr>total = 0, processed = 1, succeeded = 0, failed = 1, skipped = 0,
           errors = [(''My Flow.json'',
                      ''Failed to import workflow: API returned 400: ''
                      @ JSON_stringify (JObj [(''message'', JStr ''Bad request'')]))]\<rparr>, [])
   \<and> (\<exists>st' results'.
        fst (main_loop example_config world_rejecting initial_state []
               [''templates/devops/My Flow.json'', ''templates/slack/Other Flow.json''] [])
          = Inr (st', results')
        \<and> errors st' =
            [(''My Flow.json'',
              ''Failed to import workflow: API returned 400: ''
              @ JSON_stringify (JObj [(''message'', JStr ''Bad request'')])),
             (''Other Flow.json'',
              ''Failed to import workflow: API returned 400: ''
              @ JSON_stringify (JObj [(''message'', JStr ''Bad request'')]))]
        \<and> failed st' = 2 \<and> succeeded st' = 0 \<and> skipped st' = 0 \<and> processed st' = 2)
   \<and> processed_paths
        (snd (main_loop example_config world_rejecting initial_state []
                [''templates/devops/My Flow.json'', ''templates/slack/Other Flow.json''] []))
       = [''templates/devops/My Flow.json'', ''templates/slack/Other Flow.json'']"
proof -
  let ?p1 = "''templates/devops/My Flow.json''"
  let ?p2 = "''templates/slack/Other Flow.json''"
  let ?m = "''Failed to import workflow: API returned 400: ''
              @ JSON_stringify (JObj [(''message'', JStr ''Bad request'')])"
  let ?e = "Error ?m None"
  let ?s1 = "\<lparr>total = 0, processed = 1, succeeded = 0, failed = 1, skipped = 0,
              errors = [(''My Flow.json'', ?m)]\<rparr>"
  let ?first = "main_loop example_config world_rejecting initial_state [] [?p1] []"
  let ?tr0 = "[] @ snd ?first
                 @ (if [?p1] = [] then [] else [Sleep (delayBetweenWorkflows example_config)])"
  let ?tr1 = "?tr0 @ [Enter_processWorkflow ?p2]"
  let ?ex = "screenshotExists example_config world_rejecting (getCategory ?p2)
               (getScreenshotFilename ?p2) ?tr1"
  have reached: "fst ?first = Inr (?s1, [])"
    by code_simp
  have missing: "fst ?ex = Inr False"
    by code_simp
  have thrown: "fst (processWorkflow_import example_config world_rejecting ?p2 (?tr1 @ snd ?ex))
                  = Inl ?e"
    by code_simp
  have name: "basename ?p2 [] = ''Other Flow.json''"
    by code_simp
  from item_errors_isolated
         [of example_config world_rejecting initial_state "[]" "[?p1, ?p2]" "[]"
            "''importWorkflow''"]
  obtain st' results' where
    run: "fst (main_loop example_config world_rejecting initial_state [] [?p1, ?p2] [])
            = Inr (st', results')"
    and paths: "processed_paths
                  (snd (main_loop example_config world_rejecting initial_state [] [?p1, ?p2] []))
                  = [?p1, ?p2]"
    and sum: "succeeded st' + failed st' + skipped st'
                = succeeded initial_state + failed initial_state + skipped initial_state
                  + length [?p1, ?p2]"
    and counted: "processed st' + skipped st'
                = processed initial_state + skipped initial_state + length [?p1, ?p2]"
    and kept: "\<forall>before p after st_b results_b error.
         (let tr0 = [] @ snd (main_loop example_config world_rejecting initial_state [] before [])
                        @ (if before = [] then []
                           else [Sleep (delayBetweenWorkflows example_config)]);
              name = basename p [];
              category = getCategory p;
              filename = getScreenshotFilename p;
              tr1 = tr0 @ [Enter_processWorkflow p];
              tr2 = tr1 @ snd (screenshotExists example_config world_rejecting category
                                 filename tr1)
          in [?p1, ?p2] = before @ p # after
             \<and> fst (main_loop example_config world_rejecting initial_state [] before [])
                 = Inr (st_b, results_b)
             \<and> fst (screenshotExists example_config world_rejecting category filename tr1)
                 = Inr False
             \<and> (fst (processWorkflow_import example_config world_rejecting p tr2) = Inl error
                  \<or> (\<exists>workflowId.
                        fst (processWorkflow_import example_config world_rejecting p tr2)
                          = Inr workflowId
                        \<and> fst (processWorkflow_capture example_config world_rejecting name
                                 category filename workflowId
                                 (tr2 @ snd (processWorkflow_import example_config
                                               world_rejecting p tr2))) = Inl error)))
         \<longrightarrow> (\<exists>later. errors st' = errors st_b @ (basename p [], message error) # later
                   \<and> failed st' = failed st_b + 1 + length later
                   \<and> subseq (map fst later) (map (\<lambda>p. basename p []) after))"
    by (elim exE conjE) (erule that, assumption+)
  have "\<exists>later. errors st' = errors ?s1 @ (basename ?p2 [], message ?e) # later
                   \<and> failed st' = failed ?s1 + 1 + length later
                   \<and> subseq (map fst later) (map (\<lambda>p. basename p []) [])"
  proof -
    have split: "[?p1, ?p2] = [?p1] @ ?p2 # []"
      by simp
    from kept [rule_format, of "[?p1]" ?p2 "[]" ?s1 "[]" ?e, unfolded Let_def]
      split reached missing thrown
    show ?thesis by blast
  qed
  then obtain later where
    l1: "errors st' = errors ?s1 @ (basename ?p2 [], message ?e) # later"
    and l2: "failed st' = failed ?s1 + 1 + length later"
    and l3: "subseq (map fst later) (map (\<lambda>p. basename p []) [])"
    by blast
  from l3 have nil: "later = []"
    by (auto dest: list_emb_Nil2)
  have errs: "errors st' = [(''My Flow.json'', ?m), (''Other Flow.json'', ?m)]"
    unfolding l1 nil name by simp
  have failed: "failed st' = 2"
    unfolding l2 nil by simp
  have zero: "succeeded initial_state + failed initial_state + skipped initial_state = 0"
    "processed initial_state + skipped initial_state = 0"
    by (simp_all add: initial_state_def)
  have rest: "succeeded st' = 0" "skipped st' = 0" "processed st' = 2"
    using sum counted failed zero by simp_all
  show ?thesis
    using reached run errs failed rest paths by blast
qed

section \<open>The report\<close>

lemma report_writes_append:
  "report_writes (xs @ ys) = report_writes xs @ report_writes ys"
proof (induction xs)
  case Nil
  then show ?case by simp
next
  case (Cons ev xs)
  then show ?case by (cases ev) simp_all
qed

lemma report_writes_none:
  "\<forall>ev\<in>set evs. report_writes [ev] = [] \<Longrightarrow> report_writes evs = []"
proof (induction evs)
  case Nil
  then show ?case by simp
next
  case (Cons ev evs)
  then show ?case
    using report_writes_append [of "[ev]" evs] by simp
qed

lemma no_report_in_discovery: "report_writes (snd (getWorkflowFiles cfg w tr)) = []"
proof -
  have "emits_only (\<lambda>ev. report_writes [ev] = []) (filter_workflows w files)" for files
  proof (induction files)
    case Nil
    show ?case unfolding filter_workflows.simps by (rule emits_only_pure)
  next
    case (Cons f fs)
    show ?case
      unfolding filter_workflows.simps
      by (intro emits_only_await emits_only_attempt emits_only_fs emits_only_lift emits_only_if
            emits_only_pure emits_only_Let Cons.IH)
         simp
  qed
  then have "emits_only (\<lambda>ev. report_writes [ev] = []) (getWorkflowFiles cfg w)"
    unfolding getWorkflowFiles_def
    by (intro emits_only_Let emits_only_await emits_only_fs) simp_all
  then show ?thesis
    by (intro report_writes_none) (auto dest: emits_onlyD)
qed

lemma snd_await_Inr:
  "fst (m tr) = Inr x \<Longrightarrow> snd (await m f tr) = snd (m tr) @ snd (f x (tr @ snd (m tr)))"
  by (simp add: await_Inr)

lemma snd_try_finally:
  "snd (try_finally m c tr) = snd (m tr) @ snd (c (tr @ snd (m tr)))"
  by (cases "fst (c (tr @ snd (m tr)))"; cases "fst (m tr)")
     (simp_all add: try_finally_def await_Inl await_Inr step_simps)

lemma main_valid:
  assumes "is_set (n8nApiKey cfg)" "is_set (githubToken cfg)" "githubRepo cfg \<noteq> []"
    "githubRepo cfg \<noteq> ''your-org/your-screenshots-repo''"
    and "getWorkflowFiles cfg w tr = (Inr files, evs0)"
  shows "main cfg w tr =
     (let st = initial_state\<lparr>total := length files\<rparr>;
          rest =
            (if total st = 0 then pure (Returned, st)
             else
               await (puppeteer_launch w) (\<lambda>_.
               try_finally
                 (await (main_login cfg w) (\<lambda>_.
                  await (main_loop cfg w st [] files) (\<lambda>(st', results).
                  await (current_time w) (\<lambda>timestamp.
                  await (fs_writeFileSync w ''screenshot-results.json''
                           (JSON_stringify_pretty 0 (report timestamp st' results))) (\<lambda>_.
                  pure (Returned, st'))))))
                 (browser_do_close w))) (tr @ evs0)
      in (fst rest, evs0 @ snd rest))"
proof -
  have "fst (getWorkflowFiles cfg w tr) = Inr files" "snd (getWorkflowFiles cfg w tr) = evs0"
    using assms(5) by simp_all
  then show ?thesis
    using assms(1-4) by (simp add: main_def Let_def await_Inr)
qed

text \<open>
  Claim C5, as the code has it, for a valid configuration. When no workflow file is
  discovered, \<^verbatim>\<open>main\<close> returns at once with all counters zero and no errors, and
  nothing is written: the events of the run are those of the discovery, which hold no
  write of the report. When at least one file is discovered and the browser is launched
  and logged in, the run ends with the write of the report, built from the state and the
  results the loop returns, and the closing of the browser, whatever happened to the
  items.
\<close>

theorem report_written_unless_no_items:
  assumes "is_set (n8nApiKey cfg)" "is_set (githubToken cfg)" "githubRepo cfg \<noteq> []"
    "githubRepo cfg \<noteq> ''your-org/your-screenshots-repo''"
    and "getWorkflowFiles cfg w tr = (Inr files, evs0)"
  shows "(files = [] \<longrightarrow>
            main cfg w tr =
              (Inr (Returned, \<lparr>total = 0, processed = 0, succeeded = 0, failed = 0,
                                skipped = 0, errors = []\<rparr>), evs0)
            \<and> report_writes (snd (main cfg w tr)) = [])
       \<and> (files \<noteq> [] \<and> launch w (tr @ evs0) = None
            \<and> fst (main_login cfg w (tr @ evs0 @ [Launch])) = Inr () \<longrightarrow>
            (\<exists>st' results before.
               fst (main_loop cfg w (initial_state\<lparr>total := length files\<rparr>) [] files
                      (tr @ evs0 @ Launch # snd (main_login cfg w (tr @ evs0 @ [Launch]))))
                 = Inr (st', results)
               \<and> snd (main cfg w tr) =
                   before @ [WriteFile ''screenshot-results.json''
                               (JSON_stringify_pretty 0
                                  (report (now w (tr @ before)) st' results)),
                             BrowserClose]))"
proof (intro conjI impI)
  assume "files = []"
  then show "main cfg w tr =
              (Inr (Returned, \<lparr>total = 0, processed = 0, succeeded = 0, failed = 0,
                                skipped = 0, errors = []\<rparr>), evs0)"
    by (simp add: main_valid [OF assms] initial_state_def step_simps)
  then show "report_writes (snd (main cfg w tr)) = []"
    using no_report_in_discovery [of cfg w tr] assms(5) by simp
next
  assume run: "files \<noteq> [] \<and> launch w (tr @ evs0) = None
                 \<and> fst (main_login cfg w (tr @ evs0 @ [Launch])) = Inr ()"
  let ?st = "initial_state\<lparr>total := length files\<rparr>"
  let ?tr1 = "tr @ evs0 @ [Launch]"
  let ?login = "snd (main_login cfg w ?tr1)"
  let ?tr2 = "tr @ evs0 @ Launch # ?login"
  obtain st' results where loop: "fst (main_loop cfg w ?st [] files ?tr2) = Inr (st', results)"
    using main_loop_returns by blast
  let ?loop = "snd (main_loop cfg w ?st [] files ?tr2)"
  let ?before = "evs0 @ Launch # ?login @ ?loop"
  let ?body = "await (main_login cfg w) (\<lambda>_.
                  await (main_loop cfg w ?st [] files) (\<lambda>(st', results).
                  await (current_time w) (\<lambda>timestamp.
                  await (fs_writeFileSync w ''screenshot-results.json''
                           (JSON_stringify_pretty 0 (report timestamp st' results))) (\<lambda>_.
                  pure (Returned, st')))))"
  have launched: "puppeteer_launch w (tr @ evs0) = (Inr (), [Launch])"
    using run by (simp add: puppeteer_launch_def outcome_of_def)
  have login: "fst (main_login cfg w (tr @ evs0 @ [Launch])) = Inr ()"
    using run by simp
  have loop': "fst (main_loop cfg w ?st [] files ((tr @ evs0 @ [Launch]) @ ?login))
                 = Inr (st', results)"
    using loop by simp
  have body: "snd (?body (tr @ evs0 @ [Launch])) =
      ?login @ ?loop @ [WriteFile ''screenshot-results.json''
                          (JSON_stringify_pretty 0 (report (now w (tr @ ?before)) st' results))]"
  proof -
    note s1 = snd_await_Inr [where m = "main_login cfg w" and tr = "tr @ evs0 @ [Launch]"
                               and x = "()", OF login]
    note s2 = snd_await_Inr [where m = "main_loop cfg w ?st [] files"
                               and tr = "(tr @ evs0 @ [Launch]) @ ?login"
                               and x = "(st', results)", OF loop']
    have s3: "snd (await (current_time w) (\<lambda>timestamp.
                  await (fs_writeFileSync w ''screenshot-results.json''
                           (JSON_stringify_pretty 0 (report timestamp st' results))) (\<lambda>_.
                  pure (Returned, st'))) T) =
              [WriteFile ''screenshot-results.json''
                 (JSON_stringify_pretty 0 (report (now w T) st' results))]" for T
      by (simp add: current_time_def fs_writeFileSync_def await_def pure_def
            split: prod.splits sum.splits)
    show ?thesis
      unfolding s1 s2 by (simp add: s3)
  qed
  have "snd (main cfg w tr) =
      ?before @ [WriteFile ''screenshot-results.json''
                   (JSON_stringify_pretty 0 (report (now w (tr @ ?before)) st' results)),
                 BrowserClose]"
    using run launched body
    by (simp add: main_valid [OF assms] Let_def await_Inr snd_try_finally browser_do_close_def)
  with loop show "\<exists>st' results before.
               fst (main_loop cfg w (initial_state\<lparr>total := length files\<rparr>) [] files
                      (tr @ evs0 @ Launch # snd (main_login cfg w (tr @ evs0 @ [Launch]))))
                 = Inr (st', results)
               \<and> snd (main cfg w tr) =
                   before @ [WriteFile ''screenshot-results.json''
                               (JSON_stringify_pretty 0
                                  (report (now w (tr @ before)) st' results)),
                             BrowserClose]"
    by blast
qed

lemma example_config_valid:
  "is_set (n8nApiKey example_config)" "is_set (githubToken example_config)"
  "githubRepo example_config \<noteq> []"
  "githubRepo example_config \<noteq> ''your-org/your-screenshots-repo''"
  by (simp_all add: example_config_def CONFIG_def example_env_def is_set_def or_default_def)

text \<open>
  Witness for C5: with an engine that rejects the one workflow that is found, so that
  every item fails, the run ends with the write of the report and the closing of the
  browser; with no workflow file, it returns with all counters zero after the discovery.
\<close>

theorem report_written_unless_no_items_witness:
  "getWorkflowFiles example_config world_rejecting [] =
     (Inr [''templates/devops/My Flow.json''],
      [Glob ''**/*.json'' [''**/node_modules/**'', ''**/.git/**'', ''**/package*.json''],
       ReadFile ''templates/devops/My Flow.json''])
   \<and> (\<exists>st' results before.
         snd (main example_config world_rejecting []) =
           before @ [WriteFile ''screenshot-results.json''
                       (JSON_stringify_pretty 0
                          (report (now world_rejecting ([] @ before)) st' results)),
                     BrowserClose])
   \<and> getWorkflowFiles example_config world_no_files [] =
       (Inr [], [Glob ''**/*.json'' [''**/node_modules/**'', ''**/.git/**'', ''**/package*.json'']])
   \<and> main example_config world_no_files [] =
       (Inr (Returned, \<lparr>total = 0, processed = 0, succeeded = 0, failed = 0,
                         skipped = 0, errors = []\<rparr>),
        [Glob ''**/*.json'' [''**/node_modules/**'', ''**/.git/**'', ''**/package*.json'']])"
proof -
  let ?glob = "Glob ''**/*.json'' [''**/node_modules/**'', ''**/.git/**'', ''**/package*.json'']"
  let ?p = "''templates/devops/My Flow.json''"
  have found: "getWorkflowFiles example_config world_rejecting [] = (Inr [?p], [?glob, ReadFile ?p])"
    by code_simp
  have none: "getWorkflowFiles example_config world_no_files [] = (Inr [], [?glob])"
    by code_simp
  have launched: "launch world_rejecting ([] @ [?glob, ReadFile ?p]) = None"
    by (simp add: world_rejecting_def world_ok_def)
  have login: "fst (main_login example_config world_rejecting
                      ([] @ [?glob, ReadFile ?p] @ [Launch])) = Inr ()"
    by code_simp
  note run = report_written_unless_no_items [OF example_config_valid found]
  note empty = report_written_unless_no_items [OF example_config_valid none]
  have "\<exists>st' results before.
         snd (main example_config world_rejecting []) =
           before @ [WriteFile ''screenshot-results.json''
                       (JSON_stringify_pretty 0
                          (report (now world_rejecting ([] @ before)) st' results)),
                     BrowserClose]"
    using run launched login by blast
  moreover have "main example_config world_no_files [] =
       (Inr (Returned, \<lparr>total = 0, processed = 0, succeeded = 0, failed = 0,
                         skipped = 0, errors = []\<rparr>), [?glob])"
    using empty by blast
  ultimately show ?thesis
    using found none by blast
qed

text \<open>
  Counterexample to C5 as stated: with a valid configuration and no workflow file, the
  run returns without any write of the report file.
\<close>

theorem no_report_without_items:
  "fst (main example_config world_no_files []) =
     Inr (Returned, \<lparr>total = 0, processed = 0, succeeded = 0, failed = 0,
                      skipped = 0, errors = []\<rparr>)
   \<and> snd (main example_config world_no_files []) =
       [Glob ''**/*.json'' [''**/node_modules/**'', ''**/.git/**'', ''**/package*.json'']]
   \<and> report_writes (snd (main example_config world_no_files [])) = []"
  by code_simp

section \<open>The counters\<close>

text \<open>
  Claim C2 on the code: the item is skipped, because the store already has its
  screenshot; \<^verbatim>\<open>skipped\<close> becomes 1 and \<^verbatim>\<open>processed\<close> stays 0, also at the end of
  the loop over this one item, where \<^verbatim>\<open>total\<close> is 1. So
  \<^verbatim>\<open>succeeded + failed + skipped\<close> is 1 and \<^verbatim>\<open>processed\<close> is 0.
\<close>

theorem skipped_item_not_processed:
  "fst (main_loop example_config world_existing (initial_state\<lparr>total := 1\<rparr>) []
          [''templates/devops/My Flow.json''] []) =
     Inr (\<lparr>total = 1, processed = 0, succeeded = 0, failed = 0, skipped = 1, errors = []\<rparr>, [])"
  by code_simp

end
